theory Spec2Isabelle
  imports Complex_Main
begin

section \<open>Util: humanized wait and account chunking\<close>

text \<open>
  Epoch milliseconds, points, minutes and counters are integers in the source's use and are
  \<open>int\<close> here; lengths and indices are \<open>nat\<close>; the value of \<open>Math.random()\<close> is a \<open>real\<close>
  where it only scales a whole number of minutes.

  \<open>Util.humanizedWait\<close> computes with arbitrary numbers, so its arguments and results are
  JavaScript numbers with their non-finite values: a finite value, \<open>Infinity\<close>, \<open>-Infinity\<close> or
  \<open>NaN\<close>. A finite result beyond the largest double, \<open>(2^53 - 1) * 2^971\<close>, overflows to the
  infinity of its sign. The rounding of the mantissa, underflow and the sign of zero are
  left out of the model.
\<close>

datatype js_number = Fin real | PosInfinity | NegInfinity | NaN

definition maxDouble :: real where
  "maxDouble = (2 ^ 53 - 1) * 2 ^ 971"

definition toDouble :: "real \<Rightarrow> js_number" where
  "toDouble x =
     (if x > maxDouble then PosInfinity
      else if x < - maxDouble then NegInfinity
      else Fin x)"

text \<open>
  The sign of a number that is not \<open>NaN\<close>, and the infinity of a sign; a product or quotient
  whose sign is 0 here is \<open>0 * Infinity\<close> or the like, which is \<open>NaN\<close>.
\<close>

fun signOf :: "js_number \<Rightarrow> real" where
  "signOf (Fin x) = sgn x"
| "signOf PosInfinity = 1"
| "signOf NegInfinity = - 1"
| "signOf NaN = 0"

definition signedInfinity :: "real \<Rightarrow> js_number" where
  "signedInfinity s =
     (if s = 0 then NaN else if s > 0 then PosInfinity else NegInfinity)"

text \<open>The operators \<open>*\<close>, \<open>+\<close>, unary and binary \<open>-\<close>, and \<open>/\<close> on numbers.\<close>

fun js_times :: "js_number \<Rightarrow> js_number \<Rightarrow> js_number" where
  "js_times NaN b = NaN"
| "js_times a NaN = NaN"
| "js_times (Fin x) (Fin y) = toDouble (x * y)"
| "js_times a b = signedInfinity (signOf a * signOf b)"

fun js_plus :: "js_number \<Rightarrow> js_number \<Rightarrow> js_number" where
  "js_plus NaN b = NaN"
| "js_plus a NaN = NaN"
| "js_plus (Fin x) (Fin y) = toDouble (x + y)"
| "js_plus PosInfinity NegInfinity = NaN"
| "js_plus NegInfinity PosInfinity = NaN"
| "js_plus (Fin x) b = b"
| "js_plus a b = a"

fun js_negate :: "js_number \<Rightarrow> js_number" where
  "js_negate (Fin x) = Fin (- x)"
| "js_negate PosInfinity = NegInfinity"
| "js_negate NegInfinity = PosInfinity"
| "js_negate NaN = NaN"

definition js_minus :: "js_number \<Rightarrow> js_number \<Rightarrow> js_number" where
  "js_minus a b = js_plus a (js_negate b)"

fun js_divide :: "js_number \<Rightarrow> js_number \<Rightarrow> js_number" where
  "js_divide NaN b = NaN"
| "js_divide a NaN = NaN"
| "js_divide (Fin x) (Fin y) =
     (if y = 0 then signedInfinity (sgn x) else toDouble (x / y))"
| "js_divide (Fin x) b = Fin 0"
| "js_divide a (Fin y) = signedInfinity (signOf a * (if y < 0 then - 1 else 1))"
| "js_divide a b = NaN"

text \<open>
  \<open>Math.round\<close> rounds halves upwards, as \<open>round\<close> does, and leaves the non-finite values as
  they are. \<open>Math.max\<close> is \<open>NaN\<close> as soon as one argument is.
\<close>

fun Math_round :: "js_number \<Rightarrow> js_number" where
  "Math_round (Fin x) = Fin (of_int (round x))"
| "Math_round a = a"

fun Math_max :: "js_number \<Rightarrow> js_number \<Rightarrow> js_number" where
  "Math_max NaN b = NaN"
| "Math_max a NaN = NaN"
| "Math_max PosInfinity b = PosInfinity"
| "Math_max a PosInfinity = PosInfinity"
| "Math_max NegInfinity b = b"
| "Math_max a NegInfinity = a"
| "Math_max (Fin x) (Fin y) = Fin (max x y)"

text \<open>
  \<open>Util.humanizedWait(baseMs, variationPercent)\<close> computes the delay it then passes to
  \<open>wait\<close>; a call without \<open>variationPercent\<close> is a call with 20. The value drawn from
  \<open>Math.random()\<close> is the third argument. \<open>humanizedActualWait\<close> is the value of the local
  \<open>actualWait\<close>.
\<close>

definition humanizedActualWait :: "js_number \<Rightarrow> js_number \<Rightarrow> js_number \<Rightarrow> js_number" where
  "humanizedActualWait baseMs variationPercent rnd =
     (let variation = js_times baseMs (js_divide variationPercent (Fin 100));
          actualWait = js_plus baseMs (js_times (js_minus rnd (Fin 0.5)) variation)
      in actualWait)"

definition humanizedWait :: "js_number \<Rightarrow> js_number \<Rightarrow> js_number \<Rightarrow> js_number" where
  "humanizedWait baseMs variationPercent rnd =
     (let actualWait = humanizedActualWait baseMs variationPercent rnd;
          clampedWait = Math_max (Fin 100) (Math_round actualWait)
      in clampedWait)"





section \<open>FinalWebhook: account results and the final summary\<close>

text \<open>The interface \<open>AccountResult\<close>; \<open>errorMessage\<close> is optional in the source.\<close>

record AccountResult =
  email :: string
  pointsBefore :: int
  pointsAfter :: int
  pointsGained :: int
  tasksCompleted :: int
  executionDuration :: int
  success :: bool
  errorMessage :: "string option"

definition createAccountResult ::
  "string \<Rightarrow> int \<Rightarrow> int \<Rightarrow> int \<Rightarrow> int \<Rightarrow> bool \<Rightarrow> string option \<Rightarrow> AccountResult" where
  "createAccountResult em ptsBefore ptsAfter tasks duration ok err =
     \<lparr>email = em,
      pointsBefore = ptsBefore,
      pointsAfter = ptsAfter,
      pointsGained = max 0 (ptsAfter - ptsBefore),
      tasksCompleted = tasks,
      executionDuration = duration,
      success = ok,
      errorMessage = err\<rparr>"

text \<open>
  A record is consistent when its \<open>pointsGained\<close> is \<open>max(0, pointsAfter - pointsBefore)\<close>.
\<close>

definition gainConsistent :: "AccountResult \<Rightarrow> bool" where
  "gainConsistent r = (pointsGained r = max 0 (pointsAfter r - pointsBefore r))"

text \<open>
  The interface \<open>FinalSummary\<close>. Instants are epoch milliseconds. The field holding the
  records is \<open>accountResults\<close> in the source; here it is \<open>summaryAccountResults\<close>, since the
  bot's own field of that name is modelled below.
\<close>

record FinalSummary =
  totalAccounts :: int
  successfulAccounts :: int
  failedAccounts :: int
  totalPointsGained :: int
  retryPassesUsed :: int
  totalExecutionTime :: int
  startTime :: int
  endTime :: int
  summaryAccountResults :: "AccountResult list"

text \<open>
  \<open>createFinalSummary\<close>: \<open>filter(...).length\<close>, \<open>length - successful\<close>, a \<open>reduce\<close> from 0
  (a left fold) and the rounded duration in seconds.
\<close>

definition createFinalSummary :: "AccountResult list \<Rightarrow> int \<Rightarrow> int \<Rightarrow> int \<Rightarrow> FinalSummary" where
  "createFinalSummary results passes start finish =
     (let nSuccessful = int (length (filter success results));
          nFailed = int (length results) - nSuccessful;
          gained = foldl (\<lambda>sum account. sum + pointsGained account) 0 results;
          seconds = round (real_of_int (finish - start) / 1000)
      in \<lparr>totalAccounts = int (length results),
          successfulAccounts = nSuccessful,
          failedAccounts = nFailed,
          totalPointsGained = gained,
          retryPassesUsed = passes,
          totalExecutionTime = seconds,
          startTime = start,
          endTime = finish,
          summaryAccountResults = results\<rparr>)"

section \<open>Scheduler: configuration, host clock and persisted state\<close>

text \<open>
  \<open>ConfigScheduler\<close> with its two nested objects. The fields \<open>min\<close> and \<open>max\<close> of
  \<open>randomDelayMinutes\<close> are \<open>minMinutes\<close> and \<open>maxMinutes\<close> here, and \<open>retryOnFailure.enabled\<close>
  is \<open>retryEnabled\<close>.
\<close>

record RandomDelayMinutes =
  minMinutes :: int
  maxMinutes :: int

record RetryOnFailure =
  retryEnabled :: bool
  maxRetries :: int
  retryDelayMinutes :: int

record ConfigScheduler =
  enabled :: bool
  dailyRunTime :: string
  timezone :: string
  randomDelayMinutes :: RandomDelayMinutes
  retryOnFailure :: RetryOnFailure

record SchedulerState =
  lastRunDate :: string
  nextRunTime :: int
  consecutiveFailures :: int
  isRunning :: bool
  lastFailureTime :: "int option"

text \<open>
  What the scheduler reads from its host at one moment: \<open>Date.now()\<close>, the date part of
  \<open>new Date().toISOString()\<close> and \<open>new Date().getMonth()\<close> (0 is January); and the zone rules
  of the host, as the two conversions on which ECMAScript builds the local methods of
  \<open>Date\<close>: \<open>LocalTime(t)\<close>, the local time value of the instant \<open>t\<close>, and \<open>UTC(w)\<close>, the instant of
  the local time value \<open>w\<close>. Both are in milliseconds, and they are not inverse to each other
  around a change of the zone's offset.
\<close>

record Host =
  now :: int
  isoDate :: string
  getMonth :: nat
  localTime :: "int \<Rightarrow> int"
  utcOf :: "int \<Rightarrow> int"

text \<open>
  \<open>new Date().getTimezoneOffset()\<close>: the minutes from the local time to UTC at the current
  instant, \<open>(t - LocalTime(t)) / msPerMinute\<close>, for a zone whose offset is a whole number of
  minutes.
\<close>

definition getTimezoneOffset :: "Host \<Rightarrow> int" where
  "getTimezoneOffset host = (now host - localTime host (now host)) div 60000"

datatype js_error = ReferenceError | DateStringError | InvalidTime | ReadError | SyntaxError

datatype log_level = LogInfo | LogWarn | LogError

type_synonym log_entry = "log_level \<times> string"

subsection \<open>Validation of the configuration\<close>

definition isDigit :: "char \<Rightarrow> bool" where
  "isDigit c = (c \<in> set ''0123456789'')"

definition digitValue :: "char \<Rightarrow> int" where
  "digitValue c = int (length (takeWhile (\<lambda>d. d \<noteq> c) ''0123456789''))"

text \<open>
  The regular expression \<open>/^([01]?[0-9]|2[0-3]):[0-5][0-9]$/\<close>: one digit, or a digit after
  0 or 1, or 2 followed by 0 to 3; a colon; a digit 0 to 5; a digit.
\<close>

fun timeRegex_test :: "string \<Rightarrow> bool" where
  "timeRegex_test [h, c, m1, m2] =
     (isDigit h \<and> c = CHR '':'' \<and> m1 \<in> set ''012345'' \<and> isDigit m2)"
| "timeRegex_test [h1, h2, c, m1, m2] =
     (((h1 \<in> set ''01'' \<and> isDigit h2) \<or> (h1 = CHR ''2'' \<and> h2 \<in> set ''0123'')) \<and>
      c = CHR '':'' \<and> m1 \<in> set ''012345'' \<and> isDigit m2)"
| "timeRegex_test _ = False"

text \<open>
  \<open>validateConfig\<close>; the scheduler block may be absent from the configuration.
\<close>

definition validateConfig :: "ConfigScheduler option \<Rightarrow> bool" where
  "validateConfig scheduler =
     (case scheduler of
        None \<Rightarrow> False
      | Some sch \<Rightarrow>
          if \<not> timeRegex_test (dailyRunTime sch) then False
          else if minMinutes (randomDelayMinutes sch) \<ge> maxMinutes (randomDelayMinutes sch)
            then False
          else True)"

subsection \<open>The scheduled instant\<close>

text \<open>
  \<open>dailyRunTime.split(':').map(Number)\<close> on a string of the validated shape. \<open>start()\<close>
  returns before any instant is computed when \<open>validateConfig\<close> fails, so other strings
  never reach this function; the model answers \<open>None\<close> for them.
\<close>

definition parseDailyRunTime :: "string \<Rightarrow> (int \<times> int) option" where
  "parseDailyRunTime s =
     (if \<not> timeRegex_test s then None
      else (case s of
              [h, _, m1, m2] \<Rightarrow> Some (digitValue h, 10 * digitValue m1 + digitValue m2)
            | [h1, h2, _, m1, m2] \<Rightarrow>
                Some (10 * digitValue h1 + digitValue h2, 10 * digitValue m1 + digitValue m2)
            | _ \<Rightarrow> None))"

text \<open>
  The second clause of the \<open>switch\<close> in \<open>getConfiguredTimezoneOffset\<close> reads the variable
  \<open>now\<close>, which the first clause declares (\<open>const now = new Date()\<close>). The declaration is
  scoped to the whole \<open>switch\<close> block but initialised only when the first clause runs. The
  binding is \<open>None\<close> while uninitialised, and reading it then throws (a \<open>ReferenceError\<close>
  for \<open>const\<close>; compiled down to \<open>var\<close> the read gives \<open>undefined\<close> and \<open>.getMonth()\<close>
  throws a \<open>TypeError\<close>: an exception either way).
\<close>

definition newYorkClause :: "Host option \<Rightarrow> js_error + int" where
  "newYorkClause now_binding =
     (case now_binding of
        None \<Rightarrow> Inl ReferenceError
      | Some d \<Rightarrow>
          (let isNYDST = (getMonth d \<ge> 2 \<and> getMonth d \<le> 10)
           in Inr (if isNYDST then 4 * 60 * 60 * 1000 else 5 * 60 * 60 * 1000)))"

definition getConfiguredTimezoneOffset ::
  "ConfigScheduler \<Rightarrow> Host \<Rightarrow> js_error + (int \<times> log_entry list)" where
  "getConfiguredTimezoneOffset cfg host =
     (let configuredTz = timezone cfg in
      if configuredTz = ''UTC'' then Inr (0, [])
      else if configuredTz = ''Europe/Paris'' \<or> configuredTz = ''CET'' then
        (let d = host;
             isJuly = (getMonth d = 6);
             isDST = (isJuly \<or> (getMonth d \<ge> 2 \<and> getMonth d \<le> 9))
         in Inr (if isDST then - 2 * 60 * 60 * 1000 else - 1 * 60 * 60 * 1000, []))
      else if configuredTz = ''America/New_York'' \<or> configuredTz = ''EST'' then
        (case newYorkClause None of
           Inl e \<Rightarrow> Inl e
         | Inr off \<Rightarrow> Inr (off, []))
      else
        Inr (- getTimezoneOffset host * 60 * 1000,
             [(LogWarn, ''Unknown timezone, using system timezone'')]))"

text \<open>
  Local calendar arithmetic of \<open>Date\<close>. \<open>setHours(h, m, 0, 0)\<close> takes the local time of the
  date, keeps its day number and replaces the time within the day
  (\<open>MakeDate(Day(LocalTime(t)), MakeTime(h, m, 0, 0))\<close>), and converts the result back with
  \<open>UTC\<close>. \<open>setDate(getDate() + 1)\<close> makes the day of the month one more and keeps the time
  within the day, which is one day more of local time, and converts back likewise. Across
  a change of the host's offset the two instants are 23 or 25 hours apart.
\<close>

definition setHours :: "Host \<Rightarrow> int \<Rightarrow> int \<Rightarrow> int \<Rightarrow> int" where
  "setHours host date hours minutes =
     (let t = localTime host date;
          dayNumber = t div 86400000
      in utcOf host (dayNumber * 86400000 + hours * 3600000 + minutes * 60000))"

definition setDatePlusOne :: "Host \<Rightarrow> int \<Rightarrow> int" where
  "setDatePlusOne host date =
     (let t = localTime host date
      in utcOf host (t + 86400000))"

text \<open>
  \<open>getScheduledTimeForDate\<close>. The warning that the zone lookup may log is dropped here.
\<close>

definition getScheduledTimeForDate :: "ConfigScheduler \<Rightarrow> Host \<Rightarrow> int \<Rightarrow> js_error + int" where
  "getScheduledTimeForDate cfg host date =
     (case parseDailyRunTime (dailyRunTime cfg) of
        None \<Rightarrow> Inl InvalidTime
      | Some (hours, minutes) \<Rightarrow>
          (let scheduledDate = setHours host date hours minutes
           in case getConfiguredTimezoneOffset cfg host of
                Inl e \<Rightarrow> Inl e
              | Inr (timezoneOffsetMs, _) \<Rightarrow> Inr (scheduledDate + timezoneOffsetMs)))"

definition getTodayScheduledTime :: "ConfigScheduler \<Rightarrow> Host \<Rightarrow> js_error + int" where
  "getTodayScheduledTime cfg host = getScheduledTimeForDate cfg host (now host)"

definition getTomorrowScheduledTime :: "ConfigScheduler \<Rightarrow> Host \<Rightarrow> js_error + int" where
  "getTomorrowScheduledTime cfg host =
     getScheduledTimeForDate cfg host (setDatePlusOne host (now host))"

text \<open>\<open>getRandomDelay\<close>; \<open>rnd\<close> is the value of \<open>Math.random()\<close>.\<close>

definition getRandomDelay :: "ConfigScheduler \<Rightarrow> real \<Rightarrow> int" where
  "getRandomDelay cfg rnd =
     (let mn = minMinutes (randomDelayMinutes cfg);
          mx = maxMinutes (randomDelayMinutes cfg);
          randomMinutes = \<lfloor>rnd * real_of_int (mx - mn + 1)\<rfloor> + mn
      in randomMinutes * 60 * 1000)"

definition calculateNextRunTime :: "ConfigScheduler \<Rightarrow> Host \<Rightarrow> real \<Rightarrow> js_error + int" where
  "calculateNextRunTime cfg host rnd =
     (case getTodayScheduledTime cfg host of
        Inl e \<Rightarrow> Inl e
      | Inr todayScheduledTime \<Rightarrow>
          (case (if now host \<ge> todayScheduledTime then getTomorrowScheduledTime cfg host
                 else Inr todayScheduledTime) of
             Inl e \<Rightarrow> Inl e
           | Inr targetTime \<Rightarrow> Inr (targetTime + getRandomDelay cfg rnd)))"

subsection \<open>Deciding whether to run now\<close>

text \<open>
  \<open>getTodayDateString\<close> throws when the date part of the ISO string is empty.
\<close>

definition getTodayDateString :: "Host \<Rightarrow> js_error + string" where
  "getTodayDateString host =
     (let dateStr = isoDate host
      in if dateStr = [] then Inl DateStringError else Inr dateStr)"

text \<open>
  Truthiness of the optional number \<open>lastFailureTime\<close>: \<open>undefined\<close> and \<open>0\<close> are falsy.
\<close>

definition truthy :: "int option \<Rightarrow> bool" where
  "truthy v = (case v of None \<Rightarrow> False | Some t \<Rightarrow> t \<noteq> 0)"

definition shouldRunNow :: "ConfigScheduler \<Rightarrow> Host \<Rightarrow> SchedulerState \<Rightarrow> js_error + bool" where
  "shouldRunNow cfg host st =
     (case getTodayDateString host of
        Inl e \<Rightarrow> Inl e
      | Inr today \<Rightarrow>
          if lastRunDate st = [] then Inr True
          else
            (case (if lastRunDate st \<noteq> today then
                     (case getTodayScheduledTime cfg host of
                        Inl e \<Rightarrow> Inl e
                      | Inr todayScheduledTime \<Rightarrow> Inr (now host \<ge> todayScheduledTime))
                   else Inr False) of
               Inl e \<Rightarrow> Inl e
             | Inr True \<Rightarrow> Inr True
             | Inr False \<Rightarrow>
                 if retryEnabled (retryOnFailure cfg) \<and> consecutiveFailures st > 0 \<and>
                    truthy (lastFailureTime st)
                 then
                   (let retryDelay = retryDelayMinutes (retryOnFailure cfg) * 60 * 1000
                    in if now host \<ge> the (lastFailureTime st) + retryDelay then Inr True
                       else Inr False)
                 else Inr False))"

subsection \<open>Loading the persisted state\<close>

text \<open>
  The state file as \<open>loadState\<close> finds it: absent, present but unreadable, present with
  text that \<open>JSON.parse\<close> rejects, or present with a JSON document. A document that is an
  object overrides the default fields it holds; any other document (a number, a string,
  \<open>null\<close>, an array) contributes none of the five fields to the spread.
\<close>

record StateOverrides =
  lastRunDateO :: "string option"
  nextRunTimeO :: "int option"
  consecutiveFailuresO :: "int option"
  isRunningO :: "bool option"
  lastFailureTimeO :: "int option"

datatype json_doc = JsonObject StateOverrides | JsonOther

datatype state_file = NoFile | Unreadable | Malformed | Document json_doc

definition existsSync :: "state_file \<Rightarrow> bool" where
  "existsSync f = (f \<noteq> NoFile)"

definition readAndParse :: "state_file \<Rightarrow> js_error + json_doc" where
  "readAndParse f =
     (case f of
        NoFile \<Rightarrow> Inl ReadError
      | Unreadable \<Rightarrow> Inl ReadError
      | Malformed \<Rightarrow> Inl SyntaxError
      | Document d \<Rightarrow> Inr d)"

definition spreadOver :: "SchedulerState \<Rightarrow> json_doc \<Rightarrow> SchedulerState" where
  "spreadOver d doc =
     (case doc of
        JsonOther \<Rightarrow> d
      | JsonObject ov \<Rightarrow>
          \<lparr>lastRunDate = (case lastRunDateO ov of None \<Rightarrow> lastRunDate d | Some v \<Rightarrow> v),
           nextRunTime = (case nextRunTimeO ov of None \<Rightarrow> nextRunTime d | Some v \<Rightarrow> v),
           consecutiveFailures =
             (case consecutiveFailuresO ov of None \<Rightarrow> consecutiveFailures d | Some v \<Rightarrow> v),
           isRunning = (case isRunningO ov of None \<Rightarrow> isRunning d | Some v \<Rightarrow> v),
           lastFailureTime =
             (case lastFailureTimeO ov of None \<Rightarrow> lastFailureTime d | Some v \<Rightarrow> Some v)\<rparr>)"

definition defaultState :: SchedulerState where
  "defaultState =
     \<lparr>lastRunDate = [], nextRunTime = 0, consecutiveFailures = 0, isRunning = False,
      lastFailureTime = None\<rparr>"

text \<open>
  \<open>loadState\<close>: the \<open>try\<close> block is \<open>readAndParse\<close> followed by the spread; the \<open>catch\<close>
  logs a warning and returns the defaults. The result is a sum so that "does not throw"
  is a statement about the value.
\<close>

definition loadState :: "state_file \<Rightarrow> js_error + (SchedulerState \<times> log_entry list)" where
  "loadState f =
     (if \<not> existsSync f then Inr (defaultState, [])
      else
        (case readAndParse f of
           Inr doc \<Rightarrow> Inr (spreadOver defaultState doc, [])
         | Inl e \<Rightarrow> Inr (defaultState, [(LogWarn, ''Failed to load scheduler state'')])))"

subsection \<open>Scheduling and executing a run\<close>

text \<open>
  What one call of a scheduler method does to the outside: writes of the state file, the
  two kinds of timer (\<open>schedulerTimer\<close> and the anonymous retry timer, with their delays in
  milliseconds), the call of \<open>executeMainScript\<close>, log lines, and the direct call of
  \<open>executeWithRetry\<close> that \<open>scheduleNext\<close> makes when the computed delay is not positive.
  That nested call is not awaited by the source; it is recorded here, and \<open>followCalls\<close>
  below follows it.
\<close>

datatype effect =
    SaveState SchedulerState
  | SetSchedulerTimer int
  | SetRetryTimer int
  | ExecuteMainScript
  | CallExecuteWithRetry
  | Log log_level string

definition scheduleNext ::
  "ConfigScheduler \<Rightarrow> Host \<Rightarrow> real \<Rightarrow> bool \<Rightarrow> SchedulerState \<Rightarrow>
   js_error + (SchedulerState \<times> effect list)" where
  "scheduleNext cfg host rnd isShuttingDown st =
     (if isShuttingDown then Inr (st, [])
      else
        (case calculateNextRunTime cfg host rnd of
           Inl e \<Rightarrow> Inl e
         | Inr nextRun \<Rightarrow>
             (let delay = nextRun - now host
              in if delay \<le> 0 then Inr (st, [CallExecuteWithRetry])
                 else
                   (let st' = st\<lparr>nextRunTime := nextRun\<rparr>
                    in Inr (st', [Log LogInfo ''Next run scheduled'',
                                  SetSchedulerTimer delay, SaveState st'])))))"

text \<open>
  A call of \<open>scheduleNext\<close> at the end of a path through \<open>executeWithRetry\<close>: an exception
  of \<open>scheduleNext\<close> leaves the method with the state and effects reached so far.
\<close>

definition thenScheduleNext ::
  "ConfigScheduler \<Rightarrow> Host \<Rightarrow> real \<Rightarrow> bool \<Rightarrow> SchedulerState \<Rightarrow> effect list \<Rightarrow>
   SchedulerState \<times> effect list \<times> js_error option" where
  "thenScheduleNext cfg host rnd isShuttingDown st effs =
     (case scheduleNext cfg host rnd isShuttingDown st of
        Inl e \<Rightarrow> (st, effs, Some e)
      | Inr (st', effs') \<Rightarrow> (st', effs @ effs', None))"

text \<open>
  \<open>executeWithRetry\<close>, from its call to the end of its \<open>finally\<close> block. \<open>host\<close> is the
  host when the method starts, \<open>hostAfter\<close> the host when \<open>executeMainScript\<close> has settled,
  and \<open>mainScriptOk\<close> tells whether that promise resolved (\<open>True\<close>) or rejected. The result
  is the state, the effects in order, and the exception the method ends with, if any.
\<close>

definition executeWithRetry ::
  "ConfigScheduler \<Rightarrow> Host \<Rightarrow> Host \<Rightarrow> real \<Rightarrow> bool \<Rightarrow> bool \<Rightarrow> SchedulerState \<Rightarrow>
   SchedulerState \<times> effect list \<times> js_error option" where
  "executeWithRetry cfg host hostAfter rnd isShuttingDown mainScriptOk st =
     (if isRunning st then
        (st, [Log LogWarn ''Script is already running, skipping execution''], None)
      else
        (case getTodayDateString host of
           Inl e \<Rightarrow> (st, [], Some e)
         | Inr today \<Rightarrow>
             if lastRunDate st = today \<and> consecutiveFailures st = 0 then
               thenScheduleNext cfg host rnd isShuttingDown st
                 [Log LogInfo ''Script already completed successfully today'']
             else if retryEnabled (retryOnFailure cfg) \<and>
                     consecutiveFailures st \<ge> maxRetries (retryOnFailure cfg) then
               thenScheduleNext cfg host rnd isShuttingDown st
                 [Log LogError ''Max retries exceeded for today'']
             else
               (let st1 = st\<lparr>isRunning := True\<rparr>;
                    started = [SaveState st1,
                               Log LogInfo ''Starting scheduled Microsoft Rewards automation'',
                               ExecuteMainScript];
                    (st2, handled) =
                      (if mainScriptOk then
                         (st1\<lparr>lastRunDate := today, consecutiveFailures := 0,
                              lastFailureTime := None\<rparr>,
                          [Log LogInfo ''Scheduled run completed successfully''])
                       else
                         (let st2 = st1\<lparr>consecutiveFailures := consecutiveFailures st1 + 1,
                                        lastFailureTime := Some (now hostAfter)\<rparr>
                          in (st2,
                              Log LogError ''Scheduled run failed'' #
                              (if retryEnabled (retryOnFailure cfg) \<and>
                                  consecutiveFailures st2 < maxRetries (retryOnFailure cfg)
                               then [Log LogWarn ''Retry scheduled'',
                                     SetRetryTimer
                                       (retryDelayMinutes (retryOnFailure cfg) * 60 * 1000)]
                               else []))));
                    st3 = st2\<lparr>isRunning := False\<rparr>;
                    finished = started @ handled @ [SaveState st3]
                in if consecutiveFailures st3 = 0 \<or>
                      consecutiveFailures st3 \<ge> maxRetries (retryOnFailure cfg)
                   then thenScheduleNext cfg hostAfter rnd isShuttingDown st3 finished
                   else (st3, finished, None))))"

text \<open>
  \<open>start\<close>, up to its choice between running at once and arming the timer. It returns
  before anything else when the scheduler is disabled or its configuration is invalid.
\<close>

datatype start_action = Disabled | InvalidConfiguration | RunImmediately | ScheduleLater

definition start ::
  "ConfigScheduler option \<Rightarrow> Host \<Rightarrow> SchedulerState \<Rightarrow> js_error + start_action" where
  "start scheduler host st =
     (case scheduler of
        None \<Rightarrow> Inr Disabled
      | Some cfg \<Rightarrow>
          if \<not> enabled cfg then Inr Disabled
          else if \<not> validateConfig scheduler then Inr InvalidConfiguration
          else
            (case shouldRunNow cfg host st of
               Inl e \<Rightarrow> Inl e
             | Inr True \<Rightarrow> Inr RunImmediately
             | Inr False \<Rightarrow> Inr ScheduleLater))"

text \<open>
  Every timer callback, and \<open>start\<close> when a run is due, calls \<open>executeWithRetry\<close>. A
  sequence of such calls, each with the hosts it meets, its random draw and the outcome of
  the main script, is threaded through the state; the effects of each call are kept apart.
\<close>

record Activation =
  atStart :: Host
  atEnd :: Host
  draw :: real
  mainOk :: bool

fun runActivations ::
  "ConfigScheduler \<Rightarrow> Activation list \<Rightarrow> SchedulerState \<Rightarrow> SchedulerState \<times> effect list list" where
  "runActivations cfg [] st = (st, [])"
| "runActivations cfg (a # later) st =
     (case executeWithRetry cfg (atStart a) (atEnd a) (draw a) False (mainOk a) st of
        (st', effs, _) \<Rightarrow>
          (case runActivations cfg later st' of
             (st'', rest) \<Rightarrow> (st'', effs # rest)))"

text \<open>
  The direct call of \<open>executeWithRetry\<close> that \<open>scheduleNext\<close> makes is the last thing that
  \<open>scheduleNext\<close> does, and the call of \<open>scheduleNext\<close> is the last thing that
  \<open>executeWithRetry\<close> does, so a call of \<open>executeWithRetry\<close> can nest another one, which can
  nest a third, without bound. \<open>followCalls\<close> follows the call number \<open>k\<close> of a sequence and the
  calls nested in it, each with the hosts, the draw and the outcome of the main script that
  it meets, and joins their effects. The depth of nesting that it follows is bounded by the
  fuel; \<open>None\<close> says that the fuel is used up with a nested call still to be made.
\<close>

fun followCalls ::
  "nat \<Rightarrow> ConfigScheduler \<Rightarrow> (nat \<Rightarrow> Activation) \<Rightarrow> nat \<Rightarrow> SchedulerState \<Rightarrow>
   (SchedulerState \<times> effect list \<times> js_error option) option" where
  "followCalls 0 cfg calls k st = None"
| "followCalls (Suc fuel) cfg calls k st =
     (case executeWithRetry cfg (atStart (calls k)) (atEnd (calls k)) (draw (calls k)) False
             (mainOk (calls k)) st of
        (st', effs, err) \<Rightarrow>
          if CallExecuteWithRetry \<in> set effs then
            (case followCalls fuel cfg calls (Suc k) st' of
               None \<Rightarrow> None
             | Some (st'', effs', err') \<Rightarrow> Some (st'', effs @ effs', err'))
          else Some (st', effs, err))"

section \<open>The bot: passes over the accounts\<close>

text \<open>
  Of an account the bot's control flow reads the e-mail address only. The configuration
  holds the fields that flow reads; the top-level \<open>retryDelayMinutes\<close> (the delay between
  passes) is \<open>passDelayMinutes\<close> here.
\<close>

record Account =
  accountEmail :: string

record ConfigWorkers =
  doDailySet :: bool
  doMorePromotions :: bool
  doPunchCards :: bool
  doDesktopSearch :: bool
  doMobileSearch :: bool
  doDailyCheckIn :: bool
  doReadToEarn :: bool

record Config =
  runOnZeroPoints :: bool
  clusters :: nat
  workers :: ConfigWorkers
  retryMobileSearchAmount :: int
  finalWebhookEnabled :: bool
  scheduler :: "ConfigScheduler option"
  dailyRetries :: int
  passDelayMinutes :: int
  parallel :: bool

datatype bot_event =
    WorkStarted string int
  | Waited int
  | SentFinalWebhook FinalSummary
  | ProcessExit

text \<open>
  The answers of the browser and of the site to one call of \<open>Desktop\<close>. Each error field
  stands for the awaited calls of one stretch of the method: \<open>openError\<close> for
  \<open>createBrowser\<close>, \<open>newPage\<close>, \<open>login\<close>, \<open>goHome\<close> and \<open>getDashboardData\<close>; \<open>earnableError\<close>
  for \<open>getBrowserEarnablePoints\<close>; \<open>taskError\<close> for the worker page, the workers and
  \<open>getCurrentPoints\<close>; \<open>closeError\<close> for \<open>saveSessionData\<close> and \<open>closeBrowser\<close>.
\<close>

record DesktopWorld =
  openError :: "string option"
  availablePoints :: int
  earnableError :: "string option"
  dailySetPoints :: int
  desktopSearchPoints :: int
  morePromotionsPoints :: int
  taskError :: "string option"
  currentPoints :: int
  closeError :: "string option"

text \<open>
  \<open>Desktop\<close> awaits the browser and the site many times, and in the parallel branch its
  stretches between the awaits interleave with the rest of the program. The method is cut
  where the answers of a \<open>DesktopWorld\<close> are consumed: \<open>Opening\<close> ends with the assignment of
  \<open>pointsInitial\<close>, \<open>Counting\<close> with the assignment of \<open>pointsCanCollect\<close> and the choice to
  stop, \<open>Working\<close> with the update of the account's record, \<open>Closing\<close> with the return. A
  \<open>DesktopTask\<close> is a call of \<open>Desktop\<close> under way: its arguments, the answers it meets and
  the stage it has reached.
\<close>

datatype desktop_stage = Opening | Counting | Working | Closing

record DesktopTask =
  taskWorld :: DesktopWorld
  taskAccount :: Account
  taskPass :: int
  taskStage :: desktop_stage

text \<open>
  The fields of \<open>MicrosoftRewardsBot\<close> that the passes read and write; \<open>events\<close>, a trace
  kept for the statements below (each entry into the per-account \<open>try\<close> block with the
  account and the pass number, each wait between passes, the final webhook, the exit); and
  \<open>detached\<close>, the calls of \<open>Desktop\<close> on this bot that are still under way although the
  \<open>Promise.all\<close> that awaited them has been rejected.
\<close>

record Bot =
  isMobile :: bool
  pointsCanCollect :: int
  pointsInitial :: int
  accountResults :: "AccountResult list"
  mobileRetryAttempts :: int
  events :: "bot_event list"
  detached :: "DesktopTask list"

text \<open>The state in which the constructor leaves a bot.\<close>

definition newMicrosoftRewardsBot :: "bool \<Rightarrow> Bot" where
  "newMicrosoftRewardsBot mobileFlag =
     \<lparr>isMobile = mobileFlag, pointsCanCollect = 0, pointsInitial = 0, accountResults = [],
      mobileRetryAttempts = 0, events = [], detached = []\<rparr>"

text \<open>
  How an asynchronous call ends: it returns, it throws (with the text of the error), or it
  is still pending when the answers supplied by the outside world are used up.
\<close>

datatype completion = Returned | Threw string | Pending

text \<open>
  \<open>this.accountResults.find(result => result.email === account.email)\<close> followed by
  assignments to the fields of the record found: the first match is changed in place.
\<close>

fun updateFound ::
  "string \<Rightarrow> (AccountResult \<Rightarrow> AccountResult) \<Rightarrow> AccountResult list \<Rightarrow> AccountResult list" where
  "updateFound em f [] = []"
| "updateFound em f (r # rs) = (if email r = em then f r # rs else r # updateFound em f rs)"

definition oneIf :: "bool \<Rightarrow> int" where
  "oneIf b = (if b then 1 else 0)"

definition Desktop ::
  "Config \<Rightarrow> DesktopWorld \<Rightarrow> Account \<Rightarrow> int \<Rightarrow> Bot \<Rightarrow> completion \<times> Bot" where
  "Desktop cfg w account passNumber self =
     (case openError w of
        Some e \<Rightarrow> (Threw e, self)
      | None \<Rightarrow>
          (let self1 = self\<lparr>pointsInitial := availablePoints w\<rparr>
           in case earnableError w of
                Some e \<Rightarrow> (Threw e, self1)
              | None \<Rightarrow>
                  (let self2 = self1\<lparr>pointsCanCollect :=
                                 dailySetPoints w + desktopSearchPoints w +
                                 morePromotionsPoints w\<rparr>
                   in if \<not> runOnZeroPoints cfg \<and> pointsCanCollect self2 = 0 then
                        (case closeError w of
                           Some e \<Rightarrow> (Threw e, self2)
                         | None \<Rightarrow> (Returned, self2))
                      else
                        (case taskError w of
                           Some e \<Rightarrow> (Threw e, self2)
                         | None \<Rightarrow>
                             (let tasksDone =
                                    oneIf (doDailySet (workers cfg)) +
                                    oneIf (doMorePromotions (workers cfg)) +
                                    oneIf (doPunchCards (workers cfg)) +
                                    oneIf (doDesktopSearch (workers cfg));
                                  after = currentPoints w;
                                  self3 =
                                    (if passNumber = 1 then
                                       self2\<lparr>accountResults :=
                                         updateFound (accountEmail account)
                                           (\<lambda>r. r\<lparr>pointsBefore := pointsInitial self2,
                                                  pointsAfter := after,
                                                  pointsGained :=
                                                    max 0 (after - pointsInitial self2),
                                                  tasksCompleted := tasksDone\<rparr>)
                                           (accountResults self2)\<rparr>
                                     else self2)
                              in case closeError w of
                                   Some e \<Rightarrow> (Threw e, self3)
                                 | None \<Rightarrow> (Returned, self3))))))"

text \<open>
  One stage of a call of \<open>Desktop\<close>: the stretch of the method from one cut to the next,
  run on the bot as it is when the awaited answer arrives. The result is the end of the
  call (\<open>Inl\<close>) or the stage that follows (\<open>Inr\<close>).
\<close>

definition desktopStep ::
  "Config \<Rightarrow> DesktopTask \<Rightarrow> Bot \<Rightarrow> (completion + desktop_stage) \<times> Bot" where
  "desktopStep cfg task self =
     (let w = taskWorld task in
      case taskStage task of
        Opening \<Rightarrow>
          (case openError w of
             Some e \<Rightarrow> (Inl (Threw e), self)
           | None \<Rightarrow> (Inr Counting, self\<lparr>pointsInitial := availablePoints w\<rparr>))
      | Counting \<Rightarrow>
          (case earnableError w of
             Some e \<Rightarrow> (Inl (Threw e), self)
           | None \<Rightarrow>
               (let self2 = self\<lparr>pointsCanCollect :=
                              dailySetPoints w + desktopSearchPoints w +
                              morePromotionsPoints w\<rparr>
                in if \<not> runOnZeroPoints cfg \<and> pointsCanCollect self2 = 0
                   then (Inr Closing, self2)
                   else (Inr Working, self2)))
      | Working \<Rightarrow>
          (case taskError w of
             Some e \<Rightarrow> (Inl (Threw e), self)
           | None \<Rightarrow>
               (let tasksDone =
                      oneIf (doDailySet (workers cfg)) +
                      oneIf (doMorePromotions (workers cfg)) +
                      oneIf (doPunchCards (workers cfg)) +
                      oneIf (doDesktopSearch (workers cfg));
                    after = currentPoints w;
                    self3 =
                      (if taskPass task = 1 then
                         self\<lparr>accountResults :=
                           updateFound (accountEmail (taskAccount task))
                             (\<lambda>r. r\<lparr>pointsBefore := pointsInitial self,
                                    pointsAfter := after,
                                    pointsGained := max 0 (after - pointsInitial self),
                                    tasksCompleted := tasksDone\<rparr>)
                             (accountResults self)\<rparr>
                       else self)
                in (Inr Closing, self3)))
      | Closing \<Rightarrow>
          (case closeError w of
             Some e \<Rightarrow> (Inl (Threw e), self)
           | None \<Rightarrow> (Inl Returned, self)))"

text \<open>
  The stages of a call run one after the other with nothing in between, at most \<open>n\<close> of
  them: with four stages this is \<open>Desktop\<close>.
\<close>

fun desktopRun :: "nat \<Rightarrow> Config \<Rightarrow> DesktopTask \<Rightarrow> Bot \<Rightarrow> completion \<times> Bot" where
  "desktopRun 0 cfg task self = (Pending, self)"
| "desktopRun (Suc n) cfg task self =
     (case desktopStep cfg task self of
        (Inl c, self') \<Rightarrow> (c, self')
      | (Inr next, self') \<Rightarrow> desktopRun n cfg (task\<lparr>taskStage := next\<rparr>) self')"

text \<open>
  The answers to one attempt of \<open>Mobile\<close>. \<open>mOpenError\<close> stands for the calls up to
  \<open>getAppEarnablePoints\<close>; \<open>mTaskError\<close> for the check-in, read-to-earn and search calls
  (made only when the configuration and the dashboard ask for one of them);
  \<open>searchPointsLeft\<close> is \<open>pointProgressMax - pointProgress\<close> of the first mobile search
  counter, absent when there is none; \<open>mRetryCloseError\<close> is the \<open>closeBrowser\<close> before a
  retry, \<open>mFinalError\<close> is \<open>getCurrentPoints\<close>, \<open>mCloseError\<close> the last \<open>closeBrowser\<close>.
\<close>

record MobileWorld =
  mOpenError :: "string option"
  mobileSearchPoints :: int
  totalEarnablePoints :: int
  hasMobileSearchCounter :: bool
  mTaskError :: "string option"
  searchPointsLeft :: "int option"
  mRetryCloseError :: "string option"
  mFinalError :: "string option"
  afterPointAmount :: int
  mCloseError :: "string option"

text \<open>The end of \<open>Mobile\<close>, from \<open>getCurrentPoints\<close> on.\<close>

definition mobileFinish ::
  "MobileWorld \<Rightarrow> Account \<Rightarrow> int \<Rightarrow> int \<Rightarrow> Bot \<Rightarrow> completion \<times> Bot" where
  "mobileFinish w account passNumber tasksDone self =
     (case mFinalError w of
        Some e \<Rightarrow> (Threw e, self)
      | None \<Rightarrow>
          (let self1 =
                 (if passNumber = 1 then
                    self\<lparr>accountResults :=
                      updateFound (accountEmail account)
                        (\<lambda>r. r\<lparr>tasksCompleted := tasksCompleted r + tasksDone,
                               pointsAfter := afterPointAmount w,
                               pointsGained := max 0 (afterPointAmount w - pointsBefore r)\<rparr>)
                        (accountResults self)\<rparr>
                  else self)
           in case mCloseError w of
                Some e \<Rightarrow> (Threw e, self1)
              | None \<Rightarrow> (Returned, self1)))"

text \<open>
  \<open>Mobile\<close> calls itself to retry the searches. Each attempt consumes the answers of one
  \<open>MobileWorld\<close>; when the method would start an attempt for which no answers are left,
  the call is \<open>Pending\<close>.
\<close>

fun Mobile :: "Config \<Rightarrow> MobileWorld list \<Rightarrow> Account \<Rightarrow> int \<Rightarrow> Bot \<Rightarrow> completion \<times> Bot" where
  "Mobile cfg [] account passNumber self = (Pending, self)"
| "Mobile cfg (w # later) account passNumber self =
     (case mOpenError w of
        Some e \<Rightarrow> (Threw e, self)
      | None \<Rightarrow>
          (let self1 = self\<lparr>pointsCanCollect := mobileSearchPoints w + totalEarnablePoints w\<rparr>;
               searching = (doMobileSearch (workers cfg) \<and> hasMobileSearchCounter w);
               calling = (doDailyCheckIn (workers cfg) \<or> doReadToEarn (workers cfg) \<or> searching)
           in if \<not> runOnZeroPoints cfg \<and> pointsCanCollect self1 = 0 then
                (case mCloseError w of
                   Some e \<Rightarrow> (Threw e, self1)
                 | None \<Rightarrow> (Returned, self1))
              else if calling \<and> mTaskError w \<noteq> None then (Threw (the (mTaskError w)), self1)
              else
                (let tasksDone = oneIf (doDailyCheckIn (workers cfg)) +
                                 oneIf (doReadToEarn (workers cfg))
                 in if searching then
                      (let self2 =
                             (if (case searchPointsLeft w of
                                    None \<Rightarrow> False
                                  | Some left \<Rightarrow> left > 0)
                              then self1\<lparr>mobileRetryAttempts := mobileRetryAttempts self1 + 1\<rparr>
                              else self1)
                       in if mobileRetryAttempts self2 > retryMobileSearchAmount cfg then
                            mobileFinish w account passNumber (tasksDone + 1) self2
                          else if mobileRetryAttempts self2 \<noteq> 0 then
                            (case mRetryCloseError w of
                               Some e \<Rightarrow> (Threw e, self2)
                             | None \<Rightarrow> Mobile cfg later account passNumber self2)
                          else mobileFinish w account passNumber (tasksDone + 1) self2)
                    else mobileFinish w account passNumber tasksDone self1)))"

text \<open>
  The outside world of a run: for each account and pass, the answers to \<open>Desktop\<close>, to the
  attempts of \<open>Mobile\<close>, the seconds elapsed while the account was processed, and, for the
  parallel branch, the order in which the awaited answers arrive while the loop over the
  accounts awaits the \<open>Promise.all\<close> of this account: the next stage of this account's
  \<open>Desktop\<close> ends (\<open>DesktopStep\<close>), the next stage of the detached call number \<open>i\<close> ends
  (\<open>DetachedStep i\<close>), or the promise of \<open>Mobile\<close> settles (\<open>MobileSettles\<close>). A stage ends on a
  later turn of the event loop, so none ends between the settling of one \<open>Promise.all\<close> and
  the start of the next; what arrives during the wait between two passes is counted with the
  first account of the pass that follows.
\<close>

datatype sched_event = DesktopStep | DetachedStep nat | MobileSettles

record AccountWorld =
  desktop :: DesktopWorld
  mobile :: "MobileWorld list"
  elapsedSeconds :: int
  schedule :: "sched_event list"

type_synonym World = "Account \<Rightarrow> int \<Rightarrow> AccountWorld"

text \<open>The idiom \<open>x || 0\<close> on a number.\<close>

definition orZero :: "int \<Rightarrow> int" where
  "orZero x = (if x = 0 then 0 else x)"

text \<open>
  A detached call of \<open>Desktop\<close> runs its next stage. When the call ends, by returning or by
  throwing, it leaves the list; the rejected \<open>Promise.all\<close> has a handler on it, so its
  exception goes nowhere.
\<close>

definition stepDetached :: "Config \<Rightarrow> nat \<Rightarrow> Bot \<Rightarrow> Bot" where
  "stepDetached cfg i self =
     (if i < length (detached self) then
        (let task = detached self ! i
         in case desktopStep cfg task self of
              (Inr next, self') \<Rightarrow>
                self'\<lparr>detached := (detached self)[i := task\<lparr>taskStage := next\<rparr>]\<rparr>
            | (Inl c, self') \<Rightarrow>
                self'\<lparr>detached := take i (detached self) @ drop (Suc i) (detached self)\<rparr>)
      else self)"

text \<open>
  \<open>await Promise.all([this.Desktop(...), mobileInstance.Mobile(...)])\<close>. \<open>desk\<close> is the call
  of \<open>Desktop\<close> on this bot, \<open>None\<close> once it has returned. The call of \<open>Mobile\<close> runs on a bot
  of its own, so of it only the end matters: \<open>mobileEnd\<close>, and \<open>mobileDone\<close> once it has
  returned. The await ends with the first of the two calls that throws, and leaves a
  \<open>Desktop\<close> that is still under way then detached; it ends normally when both calls have
  returned; it is \<open>Pending\<close> when the schedule is used up before.
\<close>

fun parallelAwait ::
  "Config \<Rightarrow> sched_event list \<Rightarrow> DesktopTask option \<Rightarrow> completion \<Rightarrow> bool \<Rightarrow> Bot \<Rightarrow>
   completion \<times> Bot" where
  "parallelAwait cfg [] desk mobileEnd mobileDone self = (Pending, self)"
| "parallelAwait cfg (ev # later) desk mobileEnd mobileDone self =
     (case ev of
        DesktopStep \<Rightarrow>
          (case desk of
             None \<Rightarrow> parallelAwait cfg later desk mobileEnd mobileDone self
           | Some task \<Rightarrow>
               (case desktopStep cfg task self of
                  (Inr next, self') \<Rightarrow>
                    parallelAwait cfg later (Some (task\<lparr>taskStage := next\<rparr>)) mobileEnd
                      mobileDone self'
                | (Inl c, self') \<Rightarrow>
                    (case c of
                       Threw e \<Rightarrow> (Threw e, self')
                     | _ \<Rightarrow>
                         if mobileDone then (Returned, self')
                         else parallelAwait cfg later None mobileEnd mobileDone self')))
      | DetachedStep i \<Rightarrow>
          parallelAwait cfg later desk mobileEnd mobileDone (stepDetached cfg i self)
      | MobileSettles \<Rightarrow>
          (case mobileEnd of
             Pending \<Rightarrow> parallelAwait cfg later desk mobileEnd mobileDone self
           | Returned \<Rightarrow>
               if desk = None then (Returned, self)
               else parallelAwait cfg later desk mobileEnd True self
           | Threw e \<Rightarrow>
               (Threw e,
                self\<lparr>detached := detached self @
                       (case desk of None \<Rightarrow> [] | Some task \<Rightarrow> [task])\<rparr>)))"

text \<open>
  The body of the \<open>try\<close> block of \<open>runAllAccounts\<close> for one account, the per-account work.
  With \<open>config.parallel\<close> it starts \<open>Desktop\<close> on this bot and \<open>Mobile\<close> on a new bot and
  awaits both; otherwise it runs \<open>Desktop\<close> and, when that returns, \<open>Mobile\<close>, both on this
  bot. The sequential branch detaches no call, and \<open>config.parallel\<close> does not change during
  a run, so the sequential branch meets no detached call either.
\<close>

definition accountWork ::
  "Config \<Rightarrow> AccountWorld \<Rightarrow> Account \<Rightarrow> int \<Rightarrow> Bot \<Rightarrow> completion \<times> Bot" where
  "accountWork cfg w account passNumber self =
     (if parallel cfg then
        (let task = \<lparr>taskWorld = desktop w, taskAccount = account, taskPass = passNumber,
                     taskStage = Opening\<rparr>;
             mobileInstance = newMicrosoftRewardsBot True;
             mobileEnd = fst (Mobile cfg (mobile w) account passNumber mobileInstance)
         in parallelAwait cfg (schedule w) (Some task) mobileEnd False self)
      else
        (case Desktop cfg (desktop w) account passNumber (self\<lparr>isMobile := False\<rparr>) of
           (Returned, b) \<Rightarrow> Mobile cfg (mobile w) account passNumber (b\<lparr>isMobile := True\<rparr>)
         | (Threw e, b) \<Rightarrow> (Threw e, b)
         | (Pending, b) \<Rightarrow> (Pending, b)))"

text \<open>
  \<open>runAllAccounts\<close> (the \<open>totalPasses\<close> argument only feeds log lines and is left out). The
  \<open>try\<close> block runs the per-account work; the \<open>catch\<close> records the failure; after both, on
  pass 1, the account's result is created and appended. While the work of an account is
  pending the loop does not go on, so the pass, and with it \<open>retryPasses\<close> and \<open>runTasks\<close>
  below, is pending too. Nothing outside the \<open>try\<close> block throws, so the \<open>catch\<close> that
  \<open>runTasks\<close> puts around each pass is never entered.
\<close>

fun runAllAccounts :: "Config \<Rightarrow> World \<Rightarrow> Account list \<Rightarrow> int \<Rightarrow> Bot \<Rightarrow> completion \<times> Bot" where
  "runAllAccounts cfg world [] passNumber self = (Returned, self)"
| "runAllAccounts cfg world (account # rest) passNumber self =
     (let w = world account passNumber;
          self0 = self\<lparr>events := events self @ [WorkStarted (accountEmail account) passNumber]\<rparr>;
          (outcome, self1) = accountWork cfg w account passNumber self0
      in case outcome of
           Pending \<Rightarrow> (Pending, self1)
         | _ \<Rightarrow>
             (let accountSuccess = (outcome = Returned);
                  errorMessage = (case outcome of Threw e \<Rightarrow> Some e | _ \<Rightarrow> None);
                  self2 =
                    (if passNumber = 1 then
                       self1\<lparr>accountResults := accountResults self1 @
                         [createAccountResult (accountEmail account)
                            (orZero (pointsInitial self1)) (orZero (pointsInitial self1)) 0
                            (elapsedSeconds w) accountSuccess errorMessage]\<rparr>
                     else self1)
              in runAllAccounts cfg world rest passNumber self2))"

text \<open>
  The \<open>for\<close> loop of \<open>runTasks\<close> over the additional passes: wait, then run all accounts
  as pass \<open>retryNum + 1\<close>. The delay is \<open>(config.retryDelayMinutes || 30) * 60 * 1000\<close>.
\<close>

function retryPasses ::
  "Config \<Rightarrow> World \<Rightarrow> Account list \<Rightarrow> int \<Rightarrow> int \<Rightarrow> Bot \<Rightarrow> completion \<times> Bot" where
  "retryPasses cfg world accounts additionalRetries retryNum self =
     (if retryNum \<le> additionalRetries then
        (let currentPass = retryNum + 1;
             retryDelay =
               (if passDelayMinutes cfg = 0 then 30 else passDelayMinutes cfg) * 60 * 1000;
             self1 = self\<lparr>events := events self @ [Waited retryDelay]\<rparr>
         in case runAllAccounts cfg world accounts currentPass self1 of
              (Pending, self2) \<Rightarrow> (Pending, self2)
            | (_, self2) \<Rightarrow>
                retryPasses cfg world accounts additionalRetries (retryNum + 1) self2)
      else (Returned, self))"
  by pat_completeness auto
termination
  by (relation "measure (\<lambda>(cfg, world, accounts, additionalRetries, retryNum, self).
                  nat (additionalRetries + 1 - retryNum))") auto

declare retryPasses.simps [simp del]

definition sendFinalNotification :: "Config \<Rightarrow> int \<Rightarrow> int \<Rightarrow> int \<Rightarrow> Bot \<Rightarrow> Bot" where
  "sendFinalNotification cfg retryPassesUsedArg startedAt finishedAt self =
     (if finalWebhookEnabled cfg then
        self\<lparr>events := events self @
          [SentFinalWebhook
             (createFinalSummary (accountResults self) retryPassesUsedArg startedAt finishedAt)]\<rparr>
      else self)"

text \<open>
  \<open>runTasks\<close>: the results are reset, pass 1 runs, then the additional passes, then the
  final notification with \<open>totalPasses = 1 + additionalRetries\<close>, then the process exits.
  \<open>startedAt\<close> and \<open>finishedAt\<close> are the instants of \<open>executionStartTime\<close> and of the
  notification.
\<close>

definition runTasks ::
  "Config \<Rightarrow> World \<Rightarrow> Account list \<Rightarrow> int \<Rightarrow> int \<Rightarrow> Bot \<Rightarrow> completion \<times> Bot" where
  "runTasks cfg world accounts startedAt finishedAt self =
     (let self0 = self\<lparr>accountResults := []\<rparr>;
          additionalRetries = orZero (dailyRetries cfg);
          totalPasses = 1 + additionalRetries
      in case runAllAccounts cfg world accounts 1 self0 of
           (Pending, self1) \<Rightarrow> (Pending, self1)
         | (_, self1) \<Rightarrow>
             (case retryPasses cfg world accounts additionalRetries 1 self1 of
                (Pending, self2) \<Rightarrow> (Pending, self2)
              | (_, self2) \<Rightarrow>
                  (let self3 = sendFinalNotification cfg totalPasses startedAt finishedAt self2
                   in (Returned, self3\<lparr>events := events self3 @ [ProcessExit]\<rparr>))))"

text \<open>The entries into the per-account work, in order: account and pass number.\<close>

fun workStarted :: "bot_event list \<Rightarrow> (string \<times> int) list" where
  "workStarted [] = []"
| "workStarted (WorkStarted em p # evs) = (em, p) # workStarted evs"
| "workStarted (_ # evs) = workStarted evs"

text \<open>
  What the statements below read off the effects of a call: how often the main script was
  executed, and the delays of the retry timers and of the daily timers that were armed.
\<close>

fun mainScriptRuns :: "effect list \<Rightarrow> nat" where
  "mainScriptRuns [] = 0"
| "mainScriptRuns (ExecuteMainScript # effs) = Suc (mainScriptRuns effs)"
| "mainScriptRuns (_ # effs) = mainScriptRuns effs"

fun retryTimers :: "effect list \<Rightarrow> int list" where
  "retryTimers [] = []"
| "retryTimers (SetRetryTimer d # effs) = d # retryTimers effs"
| "retryTimers (_ # effs) = retryTimers effs"

fun schedulerTimers :: "effect list \<Rightarrow> int list" where
  "schedulerTimers [] = []"
| "schedulerTimers (SetSchedulerTimer d # effs) = d # schedulerTimers effs"
| "schedulerTimers (_ # effs) = schedulerTimers effs"

text \<open>
  Passes 1 to \<open>n\<close>, each over the accounts in order: the entries into the per-account work
  that a run of \<open>n\<close> passes is expected to make.
\<close>

definition passesInOrder :: "Account list \<Rightarrow> int \<Rightarrow> (string \<times> int) list" where
  "passesInOrder accounts n =
     concat (map (\<lambda>p. map (\<lambda>a. (accountEmail a, p)) accounts) [1..n])"

section \<open>Concrete configurations, hosts and states\<close>

text \<open>
  The configuration that \<open>SCHEDULER.md\<close> documents, hosts whose zone is UTC, and the inputs
  of the instances below.
\<close>

definition docConfig :: ConfigScheduler where
  "docConfig =
     \<lparr>enabled = True, dailyRunTime = ''06:00'', timezone = ''UTC'',
      randomDelayMinutes = \<lparr>minMinutes = 5, maxMinutes = 50\<rparr>,
      retryOnFailure = \<lparr>retryEnabled = True, maxRetries = 3, retryDelayMinutes = 30\<rparr>\<rparr>"

definition utcHost :: "int \<Rightarrow> string \<Rightarrow> nat \<Rightarrow> Host" where
  "utcHost t d m =
     \<lparr>now = t, isoDate = d, getMonth = m, localTime = (\<lambda>u. u), utcOf = (\<lambda>w. w)\<rparr>"

definition parisMidnightConfig :: ConfigScheduler where
  "parisMidnightConfig = docConfig\<lparr>dailyRunTime := ''00:00'', timezone := ''Europe/Paris''\<rparr>"

text \<open>
  A state that records a successful run on 2024-01-01, and a call of \<open>executeWithRetry\<close> at
  23:55 UTC on that day with the draw that gives the longest jitter.
\<close>

definition ranToday :: SchedulerState where
  "ranToday =
     \<lparr>lastRunDate = ''2024-01-01'', nextRunTime = 0, consecutiveFailures = 0,
      isRunning = False, lastFailureTime = None\<rparr>"

definition lateCall :: Activation where
  "lateCall =
     \<lparr>atStart = utcHost 1704153300000 ''2024-01-01'' 0,
      atEnd = utcHost 1704153300000 ''2024-01-01'' 0, draw = 99 / 100, mainOk = True\<rparr>"

text \<open>
  A host in the zone of Toronto at 23:30 local time on 2024-03-09 (04:30 UTC on
  2024-03-10), the eve of the change to daylight saving time: the local time is five hours
  behind UTC before 07:00 UTC on 2024-03-10 and four hours from then on, and a local time
  before 03:00 on that day is taken with the earlier offset. The configuration names the
  zone \<open>America/Toronto\<close>, which the offset table does not know.
\<close>

definition torontoHost :: Host where
  "torontoHost =
     \<lparr>now = 1710045000000, isoDate = ''2024-03-10'', getMonth = 2,
      localTime = (\<lambda>t. if t < 1710054000000 then t - 18000000 else t - 14400000),
      utcOf = (\<lambda>w. if w < 1710039600000 then w + 18000000 else w + 14400000)\<rparr>"

definition torontoConfig :: ConfigScheduler where
  "torontoConfig = docConfig\<lparr>dailyRunTime := ''05:00'', timezone := ''America/Toronto''\<rparr>"

definition staleFailureState :: SchedulerState where
  "staleFailureState =
     \<lparr>lastRunDate = ''2024-01-01'', nextRunTime = 0, consecutiveFailures = 1,
      isRunning = False, lastFailureTime = Some 0\<rparr>"

text \<open>
  Three failed runs on 2024-01-01, each taking a minute, and the firing of the daily timer
  on 2024-01-02; the state after \<open>n\<close> failures.
\<close>

definition failedRun :: "int \<Rightarrow> string \<Rightarrow> Activation" where
  "failedRun t d =
     \<lparr>atStart = utcHost t d 0, atEnd = utcHost (t + 60000) d 0, draw = 1 / 2, mainOk = False\<rparr>"

definition threeFailures :: "Activation list" where
  "threeFailures =
     [failedRun 1704089400000 ''2024-01-01'',
      failedRun 1704091260000 ''2024-01-01'',
      failedRun 1704093120000 ''2024-01-01'']"

definition nextDayRun :: Activation where
  "nextDayRun =
     \<lparr>atStart = utcHost 1704176880000 ''2024-01-02'' 0,
      atEnd = utcHost 1704176940000 ''2024-01-02'' 0, draw = 1 / 2, mainOk = True\<rparr>"

definition afterFailures :: "int \<Rightarrow> int \<Rightarrow> int \<Rightarrow> SchedulerState" where
  "afterFailures n nextRun failedAt =
     \<lparr>lastRunDate = [], nextRunTime = nextRun, consecutiveFailures = n, isRunning = False,
      lastFailureTime = Some failedAt\<rparr>"

text \<open>
  A bot as its constructor leaves it, a configuration with every worker enabled, two
  accounts, a site that refuses every login, and a site on which an account earns points.
\<close>

definition newBot :: Bot where
  "newBot =
     \<lparr>isMobile = False, pointsCanCollect = 0, pointsInitial = 0, accountResults = [],
      mobileRetryAttempts = 0, events = [], detached = []\<rparr>"

definition allWorkers :: ConfigWorkers where
  "allWorkers =
     \<lparr>doDailySet = True, doMorePromotions = True, doPunchCards = True, doDesktopSearch = True,
      doMobileSearch = True, doDailyCheckIn = True, doReadToEarn = True\<rparr>"

definition fullConfig :: Config where
  "fullConfig =
     \<lparr>runOnZeroPoints = False, clusters = 1, workers = allWorkers, retryMobileSearchAmount = 2,
      finalWebhookEnabled = True, scheduler = Some docConfig, dailyRetries = 0,
      passDelayMinutes = 30, parallel = False\<rparr>"

definition alice :: Account where
  "alice = \<lparr>accountEmail = ''alice@example.com''\<rparr>"

definition bob :: Account where
  "bob = \<lparr>accountEmail = ''bob@example.com''\<rparr>"

definition refusedDesktop :: DesktopWorld where
  "refusedDesktop =
     \<lparr>openError = Some ''Error: login failed'', availablePoints = 0, earnableError = None,
      dailySetPoints = 0, desktopSearchPoints = 0, morePromotionsPoints = 0, taskError = None,
      currentPoints = 0, closeError = None\<rparr>"

definition refusingWorld :: World where
  "refusingWorld account passNumber =
     \<lparr>desktop = refusedDesktop, mobile = [], elapsedSeconds = 12, schedule = []\<rparr>"

definition earningDesktop :: DesktopWorld where
  "earningDesktop =
     \<lparr>openError = None, availablePoints = 100, earnableError = None, dailySetPoints = 30,
      desktopSearchPoints = 90, morePromotionsPoints = 30, taskError = None,
      currentPoints = 250, closeError = None\<rparr>"

definition earningMobile :: MobileWorld where
  "earningMobile =
     \<lparr>mOpenError = None, mobileSearchPoints = 60, totalEarnablePoints = 15,
      hasMobileSearchCounter = True, mTaskError = None, searchPointsLeft = Some 0,
      mRetryCloseError = None, mFinalError = None, afterPointAmount = 325,
      mCloseError = None\<rparr>"

definition earningWorld :: World where
  "earningWorld account passNumber =
     \<lparr>desktop = earningDesktop, mobile = [earningMobile], elapsedSeconds = 600, schedule = []\<rparr>"


text \<open>
  The parallel branch: a configuration with \<open>parallel\<close> set, a mobile flow whose login
  fails, and a site on which the first account's mobile flow fails after the first stage of
  its desktop flow, whose other three stages end while the second account, whose logins
  all fail, is processed.
\<close>

definition parallelConfig :: Config where
  "parallelConfig = fullConfig\<lparr>parallel := True\<rparr>"

definition lockedMobile :: MobileWorld where
  "lockedMobile = earningMobile\<lparr>mOpenError := Some ''Error: mobile login failed''\<rparr>"

definition racingWorld :: World where
  "racingWorld account passNumber =
     (if account = alice then
        \<lparr>desktop = earningDesktop, mobile = [lockedMobile], elapsedSeconds = 40,
         schedule = [DesktopStep, MobileSettles]\<rparr>
      else
        \<lparr>desktop = refusedDesktop, mobile = [lockedMobile], elapsedSeconds = 12,
         schedule = [DetachedStep 0, DetachedStep 0, DetachedStep 0, DesktopStep]\<rparr>)"

text \<open>
  A site on which both flows of every account succeed, the mobile flow ending between the
  second and the third stage of the desktop flow.
\<close>

definition steadyWorld :: World where
  "steadyWorld account passNumber =
     \<lparr>desktop = earningDesktop, mobile = [earningMobile], elapsedSeconds = 600,
      schedule = [DesktopStep, DesktopStep, MobileSettles, DesktopStep, DesktopStep]\<rparr>"

definition mixedWorld :: World where
  "mixedWorld account passNumber =
     (if account = alice then earningWorld account passNumber
      else refusingWorld account passNumber)"

section \<open>Results about Util\<close>

lemma humanizedWait_cases:
  "humanizedWait b v r =
     (case humanizedActualWait b v r of
        Fin a \<Rightarrow> Fin (max 100 (of_int (round a)))
      | PosInfinity \<Rightarrow> PosInfinity
      | NegInfinity \<Rightarrow> Fin 100
      | NaN \<Rightarrow> NaN)"
  by (cases "humanizedActualWait b v r") (simp_all add: humanizedWait_def)

lemma whole_at_least_100: "\<exists>n::int. max 100 (of_int (round a)) = (of_int n :: real) \<and> 100 \<le> n"
proof (cases "100 \<le> round a")
  case True
  then have "max 100 (of_int (round a)) = (of_int (round a) :: real)" by simp
  with True show ?thesis by blast
next
  case False
  then have "max 100 (of_int (round a)) = (of_int 100 :: real)" by simp
  then show ?thesis by (intro exI [of _ 100]) simp
qed

text \<open>Arithmetic on finite numbers whose result stays within the doubles is exact.\<close>

lemma toDouble_inside: "\<bar>y\<bar> \<le> maxDouble \<Longrightarrow> toDouble y = Fin y"
  by (simp add: toDouble_def abs_le_iff)

lemma js_times_Fin: "\<bar>x * y\<bar> \<le> maxDouble \<Longrightarrow> js_times (Fin x) (Fin y) = Fin (x * y)"
  by (simp only: js_times.simps toDouble_inside)

lemma js_plus_Fin: "\<bar>x + y\<bar> \<le> maxDouble \<Longrightarrow> js_plus (Fin x) (Fin y) = Fin (x + y)"
  by (simp only: js_plus.simps toDouble_inside)

lemma js_minus_Fin: "\<bar>x - y\<bar> \<le> maxDouble \<Longrightarrow> js_minus (Fin x) (Fin y) = Fin (x - y)"
  using js_plus_Fin [of x "- y"] by (simp add: js_minus_def)

lemma js_divide_Fin:
  "y \<noteq> 0 \<Longrightarrow> \<bar>x / y\<bar> \<le> maxDouble \<Longrightarrow> js_divide (Fin x) (Fin y) = Fin (x / y)"
  by (simp only: js_divide.simps toDouble_inside if_False)

text \<open>
  Finite arguments whose variation and varied wait stay within the doubles give a finite
  varied wait.
\<close>

lemma humanizedActualWait_finite:
  assumes "\<bar>v / 100\<bar> \<le> maxDouble"
    and "\<bar>x * (v / 100)\<bar> \<le> maxDouble"
    and "\<bar>r - 1 / 2\<bar> \<le> maxDouble"
    and "\<bar>(r - 1 / 2) * (x * (v / 100))\<bar> \<le> maxDouble"
    and "\<bar>x + (r - 1 / 2) * (x * (v / 100))\<bar> \<le> maxDouble"
  shows "humanizedActualWait (Fin x) (Fin v) (Fin r) = Fin (x + (r - 1 / 2) * (x * (v / 100)))"
proof -
  have d: "js_divide (Fin v) (Fin 100) = Fin (v / 100)"
    by (rule js_divide_Fin [OF _ assms(1)]) simp
  have t: "js_times (Fin x) (Fin (v / 100)) = Fin (x * (v / 100))"
    by (rule js_times_Fin [OF assms(2)])
  have s: "js_minus (Fin r) (Fin 0.5) = Fin (r - 1 / 2)"
    using js_minus_Fin [of r "1 / 2"] assms(3) by simp
  have u: "js_times (Fin (r - 1 / 2)) (Fin (x * (v / 100))) = Fin ((r - 1 / 2) * (x * (v / 100)))"
    by (rule js_times_Fin [OF assms(4)])
  have p: "js_plus (Fin x) (Fin ((r - 1 / 2) * (x * (v / 100)))) =
      Fin (x + (r - 1 / 2) * (x * (v / 100)))"
    by (rule js_plus_Fin [OF assms(5)])
  show ?thesis
    by (simp only: humanizedActualWait_def Let_def d t s u p)
qed

text \<open>
  So do a base duration of at most \<open>1e300\<close> and a variation of at most a million percent, in
  absolute value, with a draw from \<open>[0, 1)\<close>, and the delay is then whole and at least 100.
\<close>

lemma humanizedWait_ordinary:
  assumes x: "\<bar>x\<bar> \<le> 10 ^ 300" and v: "\<bar>v\<bar> \<le> 10 ^ 6" and r: "0 \<le> r" "r < 1"
  shows "\<exists>n::int. humanizedWait (Fin x) (Fin v) (Fin r) = Fin (of_int n) \<and> 100 \<le> n"
proof -
  have room: "(10 :: real) ^ 300 + 10 ^ 304 \<le> maxDouble" by (simp add: maxDouble_def)
  have a1: "\<bar>v / 100\<bar> \<le> 10 ^ 4" using v by simp
  have "\<bar>x * (v / 100)\<bar> = \<bar>x\<bar> * \<bar>v / 100\<bar>" by (rule abs_mult)
  also have "\<dots> \<le> 10 ^ 300 * 10 ^ 4" by (rule mult_mono [OF x a1]) simp_all
  finally have a2: "\<bar>x * (v / 100)\<bar> \<le> 10 ^ 304" by simp
  have a3: "\<bar>r - 1 / 2\<bar> \<le> 1" using r by (simp add: abs_le_iff)
  have "\<bar>(r - 1 / 2) * (x * (v / 100))\<bar> = \<bar>r - 1 / 2\<bar> * \<bar>x * (v / 100)\<bar>" by (rule abs_mult)
  also have "\<dots> \<le> 1 * 10 ^ 304" by (rule mult_mono [OF a3 a2]) simp_all
  finally have a4: "\<bar>(r - 1 / 2) * (x * (v / 100))\<bar> \<le> 10 ^ 304" by simp
  have "\<bar>x + (r - 1 / 2) * (x * (v / 100))\<bar> \<le> \<bar>x\<bar> + \<bar>(r - 1 / 2) * (x * (v / 100))\<bar>"
    by (rule abs_triangle_ineq)
  also have "\<dots> \<le> 10 ^ 300 + 10 ^ 304" using x a4 by (rule add_mono)
  finally have a5: "\<bar>x + (r - 1 / 2) * (x * (v / 100))\<bar> \<le> 10 ^ 300 + 10 ^ 304" .
  have room1: "(1 :: real) \<le> maxDouble" by (simp add: maxDouble_def)
  have room4: "(10 :: real) ^ 4 \<le> maxDouble" by (simp add: maxDouble_def)
  have room304: "(10 :: real) ^ 304 \<le> maxDouble" by (simp add: maxDouble_def)
  have b1: "\<bar>v / 100\<bar> \<le> maxDouble" by (rule order_trans [OF a1 room4])
  have b2: "\<bar>x * (v / 100)\<bar> \<le> maxDouble" by (rule order_trans [OF a2 room304])
  have b3: "\<bar>r - 1 / 2\<bar> \<le> maxDouble" by (rule order_trans [OF a3 room1])
  have b4: "\<bar>(r - 1 / 2) * (x * (v / 100))\<bar> \<le> maxDouble" by (rule order_trans [OF a4 room304])
  have b5: "\<bar>x + (r - 1 / 2) * (x * (v / 100))\<bar> \<le> maxDouble" by (rule order_trans [OF a5 room])
  have "humanizedWait (Fin x) (Fin v) (Fin r) =
      Fin (max 100 (of_int (round (x + (r - 1 / 2) * (x * (v / 100))))))"
    by (simp only: humanizedWait_cases humanizedActualWait_finite [OF b1 b2 b3 b4 b5]
        js_number.case)
  with whole_at_least_100 [of "x + (r - 1 / 2) * (x * (v / 100))"] show ?thesis by simp
qed

text \<open>
  C10 (as amended). For all arguments and every random draw for which the varied wait
  \<open>baseMs + (random - 0.5) * variation\<close> is neither \<open>NaN\<close> nor \<open>Infinity\<close> (so for base durations
  below 100 or negative, and for every variation percentage that does not overflow), the
  delay computed by the humanized wait helper is a whole number of milliseconds and is at
  least 100. When the varied wait is \<open>NaN\<close> or \<open>Infinity\<close>, so is the delay.
\<close>

theorem humanizedWait_clamped:
  "(humanizedActualWait baseMs variationPercent rnd \<noteq> NaN \<longrightarrow>
    humanizedActualWait baseMs variationPercent rnd \<noteq> PosInfinity \<longrightarrow>
    (\<exists>n::int. humanizedWait baseMs variationPercent rnd = Fin (of_int n) \<and> 100 \<le> n)) \<and>
   (humanizedActualWait baseMs variationPercent rnd = NaN \<longrightarrow>
    humanizedWait baseMs variationPercent rnd = NaN) \<and>
   (humanizedActualWait baseMs variationPercent rnd = PosInfinity \<longrightarrow>
    humanizedWait baseMs variationPercent rnd = PosInfinity)"
proof (cases "humanizedActualWait baseMs variationPercent rnd")
  case (Fin a)
  then have "humanizedWait baseMs variationPercent rnd = Fin (max 100 (of_int (round a)))"
    by (simp add: humanizedWait_cases)
  with whole_at_least_100 [of a] Fin show ?thesis by auto
next
  case PosInfinity
  then show ?thesis by (simp add: humanizedWait_cases)
next
  case NegInfinity
  then have "humanizedWait baseMs variationPercent rnd = Fin (of_int 100)"
    by (simp add: humanizedWait_cases)
  moreover have "(100 :: int) \<le> 100" by simp
  ultimately have "\<exists>n::int. humanizedWait baseMs variationPercent rnd = Fin (of_int n) \<and> 100 \<le> n"
    by blast
  with NegInfinity show ?thesis by simp
next
  case NaN
  then show ?thesis by (simp add: humanizedWait_cases)
qed

text \<open>
  A wait of one second varied by 20 percent with the draw 1/4 is 950 milliseconds, and a
  negative base duration is raised to 100.
\<close>

theorem humanizedWait_clamped_witness:
  "humanizedWait (Fin 1000) (Fin 20) (Fin (1 / 4)) = Fin 950 \<and>
   humanizedWait (Fin (- 5)) (Fin 20) (Fin (1 / 4)) = Fin 100"
proof -
  have big: "(1000000 :: real) \<le> maxDouble"
  proof -
    have "(1000000 :: real) \<le> 2 ^ 20" by simp
    also have "(2 :: real) ^ 20 \<le> 2 ^ 971" by (rule power_increasing) simp_all
    also have "(2 :: real) ^ 971 \<le> (2 ^ 53 - 1) * 2 ^ 971" by simp
    finally show ?thesis by (simp add: maxDouble_def)
  qed
  have a1: "humanizedActualWait (Fin 1000) (Fin 20) (Fin (1 / 4)) = Fin 950"
    using humanizedActualWait_finite [of 20 1000 "1 / 4"] big by simp
  have a2: "humanizedActualWait (Fin (- 5)) (Fin 20) (Fin (1 / 4)) = Fin (- 19 / 4)"
    using humanizedActualWait_finite [of 20 "- 5" "1 / 4"] big by simp
  from humanizedWait_clamped [of "Fin 1000" "Fin 20" "Fin (1 / 4)"] a1
  have "\<exists>n::int. humanizedWait (Fin 1000) (Fin 20) (Fin (1 / 4)) = Fin (of_int n) \<and> 100 \<le> n"
    by simp
  moreover have "humanizedWait (Fin 1000) (Fin 20) (Fin (1 / 4)) = Fin 950"
    by (simp add: humanizedWait_cases a1)
  moreover have "round (- 19 / 4 :: real) = - 5"
    by (rule round_unique) simp_all
  then have "humanizedWait (Fin (- 5)) (Fin 20) (Fin (1 / 4)) = Fin 100"
    by (simp add: humanizedWait_cases a2)
  ultimately show ?thesis by simp
qed

text \<open>
  The claim as stated fails on arguments it covers. With \<open>baseMs = 1e308\<close> and a variation
  of 1000 percent the variation overflows, and the delay is \<open>Infinity\<close> for a draw above one
  half and \<open>NaN\<close> for the draw one half; a \<open>NaN\<close> base gives a \<open>NaN\<close> delay.
\<close>

theorem humanizedWait_overflow:
  "humanizedWait (Fin (10 ^ 308)) (Fin 1000) (Fin (3 / 4)) = PosInfinity \<and>
   humanizedWait (Fin (10 ^ 308)) (Fin 1000) (Fin (1 / 2)) = NaN \<and>
   humanizedWait NaN (Fin 20) (Fin (1 / 4)) = NaN"
proof -
  have small: "\<bar>10 :: real\<bar> \<le> maxDouble"
  proof -
    have "(10 :: real) \<le> 2 ^ 4" by simp
    also have "(2 :: real) ^ 4 \<le> 2 ^ 971" by (rule power_increasing) simp_all
    also have "(2 :: real) ^ 971 \<le> (2 ^ 53 - 1) * 2 ^ 971" by simp
    finally show ?thesis by (simp add: maxDouble_def)
  qed
  have over: "maxDouble < (10 :: real) ^ 308 * 10"
    by (simp add: maxDouble_def)
  have ten: "js_divide (Fin 1000) (Fin 100) = Fin 10"
    using small by (simp add: toDouble_def)
  have variation: "js_times (Fin (10 ^ 308)) (Fin 10) = PosInfinity"
    using over by (simp add: toDouble_def)
  have q: "js_minus (Fin (3 / 4)) (Fin 0.5) = Fin (1 / 4)"
    using small by (simp add: js_minus_def toDouble_def)
  have h: "js_minus (Fin (1 / 2)) (Fin 0.5) = Fin 0"
    using small by (simp add: js_minus_def toDouble_def)
  have tq: "js_times (Fin (1 / 4)) PosInfinity = PosInfinity"
    by (simp add: signedInfinity_def)
  have th: "js_times (Fin 0) PosInfinity = NaN"
    by (simp add: signedInfinity_def)
  have "humanizedActualWait (Fin (10 ^ 308)) (Fin 1000) (Fin (3 / 4)) = PosInfinity"
    by (simp only: humanizedActualWait_def Let_def ten variation q tq js_plus.simps)
  moreover have "humanizedActualWait (Fin (10 ^ 308)) (Fin 1000) (Fin (1 / 2)) = NaN"
    by (simp only: humanizedActualWait_def Let_def ten variation h th js_plus.simps)
  moreover have "humanizedActualWait NaN (Fin 20) (Fin (1 / 4)) = NaN"
    by (simp add: humanizedActualWait_def)
  ultimately show ?thesis by (simp add: humanizedWait_cases)
qed

subsection \<open>Chunking\<close>










section \<open>Results about the final summary\<close>

lemma foldl_pointsGained:
  "foldl (\<lambda>sum account. sum + pointsGained account) acc rs = acc + sum_list (map pointsGained rs)"
  by (induction rs arbitrary: acc) simp_all

text \<open>
  C9. For every list of account results the summary counts add up
  (\<open>successfulAccounts + failedAccounts = totalAccounts\<close>) and \<open>totalPointsGained\<close> is the sum
  of the \<open>pointsGained\<close> of the records it holds; a record built by \<open>createAccountResult\<close>
  has \<open>pointsGained = max(0, pointsAfter - pointsBefore)\<close>, which is never negative.
\<close>

theorem createFinalSummary_invariants:
  "successfulAccounts (createFinalSummary rs passes t0 t1) +
     failedAccounts (createFinalSummary rs passes t0 t1) =
     totalAccounts (createFinalSummary rs passes t0 t1) \<and>
   totalPointsGained (createFinalSummary rs passes t0 t1) =
     sum_list (map pointsGained (summaryAccountResults (createFinalSummary rs passes t0 t1))) \<and>
   summaryAccountResults (createFinalSummary rs passes t0 t1) = rs \<and>
   pointsGained (createAccountResult em ptsBefore ptsAfter tasks duration ok err) =
     max 0 (ptsAfter - ptsBefore) \<and>
   0 \<le> pointsGained (createAccountResult em ptsBefore ptsAfter tasks duration ok err)"
  by (simp add: createFinalSummary_def Let_def foldl_pointsGained createAccountResult_def)

text \<open>
  When every record is consistent the total of the summary is not negative.
\<close>

lemma totalPointsGained_nonneg:
  assumes "\<forall>r \<in> set rs. gainConsistent r"
  shows "0 \<le> totalPointsGained (createFinalSummary rs passes t0 t1)"
proof -
  have "0 \<le> sum_list (map pointsGained rs)"
    using assms by (induction rs) (simp_all add: gainConsistent_def)
  then show ?thesis by (simp add: createFinalSummary_def Let_def foldl_pointsGained)
qed

section \<open>Results about the scheduler\<close>

subsection \<open>Loading the state\<close>

text \<open>
  C8. Loading the persisted state never throws; a missing file gives the default state
  (empty \<open>lastRunDate\<close>, \<open>nextRunTime = 0\<close>, \<open>consecutiveFailures = 0\<close>, \<open>isRunning = false\<close>,
  no \<open>lastFailureTime\<close>), and a file that does not parse gives the same defaults together
  with one warning in the log.
\<close>

theorem loadState_defaults:
  "(\<exists>st logs. loadState f = Inr (st, logs)) \<and>
   loadState NoFile = Inr (defaultState, []) \<and>
   loadState Malformed = Inr (defaultState, [(LogWarn, ''Failed to load scheduler state'')]) \<and>
   defaultState = \<lparr>lastRunDate = [], nextRunTime = 0, consecutiveFailures = 0,
                    isRunning = False, lastFailureTime = None\<rparr>"
  by (cases f) (simp_all add: loadState_def existsSync_def readAndParse_def defaultState_def)

subsection \<open>Zone offsets\<close>

text \<open>
  C3 (the code departs from the claim). For the zone names \<open>America/New_York\<close> and \<open>EST\<close>
  the offset lookup throws, on every host and in every month, and so does the computation
  of the scheduled instant (here for the run time 14:30).
\<close>

theorem newYork_offset_throws:
  "getConfiguredTimezoneOffset (cfg\<lparr>timezone := ''America/New_York''\<rparr>) host = Inl ReferenceError \<and>
   getConfiguredTimezoneOffset (cfg\<lparr>timezone := ''EST''\<rparr>) host = Inl ReferenceError \<and>
   getScheduledTimeForDate
     (cfg\<lparr>dailyRunTime := ''14:30'', timezone := ''America/New_York''\<rparr>) host date =
     Inl ReferenceError"
  by (simp add: getConfiguredTimezoneOffset_def newYorkClause_def getScheduledTimeForDate_def
      parseDailyRunTime_def isDigit_def)

text \<open>
  The other zone names behave as described: \<open>UTC\<close> is offset 0, \<open>Europe/Paris\<close> and \<open>CET\<close>
  are two hours or one hour by month, and an unknown name falls back to the host's offset
  with one warning.
\<close>

lemma other_zones_offset:
  "getConfiguredTimezoneOffset (cfg\<lparr>timezone := ''UTC''\<rparr>) host = Inr (0, [])"
  "getConfiguredTimezoneOffset (cfg\<lparr>timezone := ''Europe/Paris''\<rparr>) host =
     Inr (if 2 \<le> getMonth host \<and> getMonth host \<le> 9 then - 7200000 else - 3600000, [])"
  "getConfiguredTimezoneOffset (cfg\<lparr>timezone := ''CET''\<rparr>) host =
     Inr (if 2 \<le> getMonth host \<and> getMonth host \<le> 9 then - 7200000 else - 3600000, [])"
  "timezone cfg \<notin> {''UTC'', ''Europe/Paris'', ''CET'', ''America/New_York'', ''EST''} \<Longrightarrow>
   getConfiguredTimezoneOffset cfg host =
     Inr (- getTimezoneOffset host * 60000, [(LogWarn, ''Unknown timezone, using system timezone'')])"
  by (auto simp add: getConfiguredTimezoneOffset_def Let_def)

subsection \<open>The next run time\<close>

lemma docConfig_fields [simp]:
  "dailyRunTime docConfig = ''06:00''"
  "timezone docConfig = ''UTC''"
  "minMinutes (randomDelayMinutes docConfig) = 5"
  "maxMinutes (randomDelayMinutes docConfig) = 50"
  "retryEnabled (retryOnFailure docConfig) = True"
  "maxRetries (retryOnFailure docConfig) = 3"
  "retryDelayMinutes (retryOnFailure docConfig) = 30"
  by (simp_all add: docConfig_def)

lemma utcHost_fields [simp]:
  "now (utcHost t d m) = t"
  "isoDate (utcHost t d m) = d"
  "getMonth (utcHost t d m) = m"
  "localTime (utcHost t d m) u = u"
  "utcOf (utcHost t d m) u = u"
  "getTimezoneOffset (utcHost t d m) = 0"
  by (simp_all add: utcHost_def getTimezoneOffset_def)

lemma parisMidnightConfig_fields [simp]:
  "dailyRunTime parisMidnightConfig = ''00:00''"
  "timezone parisMidnightConfig = ''Europe/Paris''"
  "minMinutes (randomDelayMinutes parisMidnightConfig) = 5"
  "maxMinutes (randomDelayMinutes parisMidnightConfig) = 50"
  by (simp_all add: parisMidnightConfig_def docConfig_def)

lemma parse_0600: "parseDailyRunTime ''06:00'' = Some (6, 0)"
  by (simp add: parseDailyRunTime_def isDigit_def digitValue_def)

lemma parse_0000: "parseDailyRunTime ''00:00'' = Some (0, 0)"
  by (simp add: parseDailyRunTime_def isDigit_def digitValue_def)

lemma docConfig_valid: "validateConfig (Some docConfig)"
  by (simp add: validateConfig_def isDigit_def)

lemma parisMidnightConfig_valid: "validateConfig (Some parisMidnightConfig)"
  by (simp add: validateConfig_def isDigit_def)

lemma utc_setHours:
  "setHours (utcHost t d m) u hours minutes =
     (u div 86400000) * 86400000 + hours * 3600000 + minutes * 60000"
  by (simp add: setHours_def)

lemma utc_setDatePlusOne: "setDatePlusOne (utcHost t d m) u = u + 86400000"
  by (simp add: setDatePlusOne_def)

lemma getScheduledTimeForDate_value:
  assumes "parseDailyRunTime (dailyRunTime cfg) = Some (hours, minutes)"
    and "getConfiguredTimezoneOffset cfg host = Inr (off, logs)"
  shows "getScheduledTimeForDate cfg host date = Inr (setHours host date hours minutes + off)"
  using assms by (simp add: getScheduledTimeForDate_def)

lemma docConfig_zone: "getConfiguredTimezoneOffset docConfig host = Inr (0, [])"
  by (simp add: getConfiguredTimezoneOffset_def)

lemma paris_zone_january:
  "getConfiguredTimezoneOffset parisMidnightConfig (utcHost t d 0) = Inr (- 3600000, [])"
  by (simp add: getConfiguredTimezoneOffset_def)

lemma docConfig_scheduled:
  "getScheduledTimeForDate docConfig (utcHost t d m) u = Inr ((u div 86400000) * 86400000 + 21600000)"
  by (simp add: getScheduledTimeForDate_value [OF _ docConfig_zone] parse_0600 utc_setHours)

lemma paris_scheduled:
  "getScheduledTimeForDate parisMidnightConfig (utcHost t d 0) u =
     Inr ((u div 86400000) * 86400000 - 3600000)"
  by (simp add: getScheduledTimeForDate_value [OF _ paris_zone_january] parse_0000
      utc_setHours)

lemma delay_half: "getRandomDelay docConfig (1 / 2) = 1680000"
  by (simp add: getRandomDelay_def)

lemma delay_zero: "getRandomDelay parisMidnightConfig 0 = 300000"
  by (simp add: getRandomDelay_def)

lemma next_doc:
  "calculateNextRunTime docConfig (utcHost 1704089400000 ''2024-01-01'' 0) (1 / 2) =
     Inr 1704176880000"
  by (simp add: calculateNextRunTime_def getTodayScheduledTime_def getTomorrowScheduledTime_def
      docConfig_scheduled utc_setDatePlusOne delay_half)

text \<open>
  Run time 00:00 in zone \<open>Europe/Paris\<close>, jitter 5 to 50, on a host on UTC at 23:30 UTC on
  2024-01-01 with the draw 0. Today's instant (23:00 UTC of the day before) has passed,
  tomorrow's is 23:00 UTC today, and with 5 minutes of jitter the next run time is 23:05
  UTC today, which is before \<open>now\<close>.
\<close>

lemma calculateNextRunTime_past:
  "validateConfig (Some parisMidnightConfig) \<and>
   calculateNextRunTime parisMidnightConfig (utcHost 1704151800000 ''2024-01-01'' 0) 0 =
     Inr 1704150300000 \<and>
   \<not> now (utcHost 1704151800000 ''2024-01-01'' 0) < 1704150300000"
  by (simp add: parisMidnightConfig_valid calculateNextRunTime_def getTodayScheduledTime_def
      getTomorrowScheduledTime_def paris_scheduled utc_setDatePlusOne delay_zero)

text \<open>
  At 23:55 UTC on that day no draw gives a next run time after \<open>now\<close>: the jitter is 50
  minutes at most, and the next run time 23:50 UTC at the latest.
\<close>

lemma paris_delay_bound:
  assumes "0 \<le> rnd" and "rnd < 1"
  shows "getRandomDelay parisMidnightConfig rnd \<le> 3000000"
proof -
  have "rnd * 46 < 46" using assms by simp
  then have "\<lfloor>rnd * 46\<rfloor> < 46" by linarith
  then show ?thesis by (simp add: getRandomDelay_def)
qed

lemma paris_late_next:
  "calculateNextRunTime parisMidnightConfig (utcHost 1704153300000 ''2024-01-01'' 0) rnd =
     Inr (1704150000000 + getRandomDelay parisMidnightConfig rnd)"
  by (simp add: calculateNextRunTime_def getTodayScheduledTime_def getTomorrowScheduledTime_def
      paris_scheduled utc_setDatePlusOne)

lemma paris_late_never_future:
  assumes "0 \<le> rnd" and "rnd < 1"
  shows "\<exists>n. calculateNextRunTime parisMidnightConfig
                (utcHost 1704153300000 ''2024-01-01'' 0) rnd = Inr n \<and>
             n \<le> now (utcHost 1704153300000 ''2024-01-01'' 0)"
  using paris_delay_bound [OF assms] by (simp add: paris_late_next)

lemma delay_longest: "getRandomDelay parisMidnightConfig (99 / 100) = 3000000"
  by (simp add: getRandomDelay_def)

text \<open>
  \<open>scheduleNext\<close> then calls \<open>executeWithRetry\<close>, which finds today's run recorded and calls
  \<open>scheduleNext\<close>: with any draw, the state is unchanged and the one effect besides the log
  line is the next nested call.
\<close>

lemma paris_late_call:
  assumes "0 \<le> rnd" and "rnd < 1"
  shows "executeWithRetry parisMidnightConfig (utcHost 1704153300000 ''2024-01-01'' 0) hostAfter
           rnd False ok ranToday =
         (ranToday,
          [Log LogInfo ''Script already completed successfully today'', CallExecuteWithRetry],
          None)"
proof -
  from paris_late_never_future [OF assms] obtain n where
    n: "calculateNextRunTime parisMidnightConfig (utcHost 1704153300000 ''2024-01-01'' 0) rnd = Inr n"
    and le: "n \<le> 1704153300000" by auto
  have "scheduleNext parisMidnightConfig (utcHost 1704153300000 ''2024-01-01'' 0) rnd False ranToday =
      Inr (ranToday, [CallExecuteWithRetry])"
    using le by (simp add: scheduleNext_def n)
  then show ?thesis
    by (simp add: executeWithRetry_def getTodayDateString_def thenScheduleNext_def ranToday_def)
qed

lemma paris_late_calls_nest:
  assumes "\<And>k. atStart (calls k) = utcHost 1704153300000 ''2024-01-01'' 0"
    and "\<And>k. 0 \<le> draw (calls k) \<and> draw (calls k) < 1"
  shows "followCalls fuel parisMidnightConfig calls k ranToday = None"
proof (induction fuel arbitrary: k)
  case 0
  show ?case by simp
next
  case (Suc fuel)
  from assms(2) [of k] have "0 \<le> draw (calls k)" and "draw (calls k) < 1" by simp_all
  from paris_late_call [OF this]
  show ?case by (simp add: assms(1) Suc.IH)
qed

text \<open>
  C7 (the code departs from the claim). The configuration with run time 00:00, zone
  \<open>Europe/Paris\<close> and jitter 5 to 50 minutes is accepted by \<open>validateConfig\<close>. On a host on
  UTC at 23:55 UTC on 2024-01-01, with the draw that gives the longest jitter, the next run
  time is 23:50 UTC on the same day, which is not after \<open>now\<close>. With that day's run
  recorded, \<open>scheduleNext\<close> arms no timer and calls \<open>executeWithRetry\<close>, which calls
  \<open>scheduleNext\<close> again, and the nesting of these calls ends at no depth.
\<close>

theorem next_run_time_not_future:
  "validateConfig (Some parisMidnightConfig) \<and>
   calculateNextRunTime parisMidnightConfig (utcHost 1704153300000 ''2024-01-01'' 0) (99 / 100) =
     Inr 1704153000000 \<and>
   \<not> now (utcHost 1704153300000 ''2024-01-01'' 0) < 1704153000000 \<and>
   scheduleNext parisMidnightConfig (utcHost 1704153300000 ''2024-01-01'' 0) (99 / 100) False
     ranToday = Inr (ranToday, [CallExecuteWithRetry]) \<and>
   (\<forall>fuel. followCalls fuel parisMidnightConfig (\<lambda>k. lateCall) 0 ranToday = None)"
proof -
  have n: "calculateNextRunTime parisMidnightConfig (utcHost 1704153300000 ''2024-01-01'' 0)
      (99 / 100) = Inr 1704153000000"
    by (simp add: paris_late_next delay_longest)
  have s: "scheduleNext parisMidnightConfig (utcHost 1704153300000 ''2024-01-01'' 0) (99 / 100)
      False ranToday = Inr (ranToday, [CallExecuteWithRetry])"
    by (simp add: scheduleNext_def n)
  have f: "followCalls fuel parisMidnightConfig (\<lambda>k. lateCall) 0 ranToday = None" for fuel
    by (rule paris_late_calls_nest) (simp_all add: lateCall_def)
  from n s f show ?thesis by (simp add: parisMidnightConfig_valid)
qed

text \<open>
  The same happens through the host's own zone rules. On the host in Toronto at 23:30
  local time on the eve of the change to daylight saving time, with run time 05:00, the
  unknown zone name and the draw 0: the fallback offset is five hours, today's instant is
  00:00 local time of 2024-03-09 and has passed, tomorrow's wall-clock time 05:00 is
  already on daylight saving time, and the next run time is 23:05 local time today, 25
  minutes before \<open>now\<close>.
\<close>

lemma toronto_next_run_past:
  "validateConfig (Some torontoConfig) \<and>
   getTodayScheduledTime torontoConfig torontoHost = Inr 1709960400000 \<and>
   getTomorrowScheduledTime torontoConfig torontoHost = Inr 1710043200000 \<and>
   calculateNextRunTime torontoConfig torontoHost 0 = Inr 1710043500000 \<and>
   \<not> now torontoHost < 1710043500000"
proof -
  have v: "validateConfig (Some torontoConfig)"
    by (simp add: validateConfig_def torontoConfig_def isDigit_def)
  have p: "parseDailyRunTime (dailyRunTime torontoConfig) = Some (5, 0)"
    by (simp add: torontoConfig_def parseDailyRunTime_def isDigit_def digitValue_def)
  have o: "getTimezoneOffset torontoHost = 300"
    by (simp add: getTimezoneOffset_def torontoHost_def)
  have z: "getConfiguredTimezoneOffset torontoConfig torontoHost =
      Inr (- 18000000, [(LogWarn, ''Unknown timezone, using system timezone'')])"
    by (simp add: getConfiguredTimezoneOffset_def torontoConfig_def o)
  have h1: "setHours torontoHost 1710045000000 5 0 = 1709978400000"
    by (simp add: setHours_def torontoHost_def)
  have d: "setDatePlusOne torontoHost 1710045000000 = 1710127800000"
    by (simp add: setDatePlusOne_def torontoHost_def)
  have h2: "setHours torontoHost 1710127800000 5 0 = 1710061200000"
    by (simp add: setHours_def torontoHost_def)
  have n: "now torontoHost = 1710045000000" by (simp add: torontoHost_def)
  have today: "getTodayScheduledTime torontoConfig torontoHost = Inr 1709960400000"
    by (simp add: getTodayScheduledTime_def getScheduledTimeForDate_value [OF p z] n h1)
  have tomorrow: "getTomorrowScheduledTime torontoConfig torontoHost = Inr 1710043200000"
    by (simp add: getTomorrowScheduledTime_def getScheduledTimeForDate_value [OF p z] n d h2)
  have j: "getRandomDelay torontoConfig 0 = 300000"
    by (simp add: getRandomDelay_def torontoConfig_def)
  have "calculateNextRunTime torontoConfig torontoHost 0 = Inr 1710043500000"
    by (simp add: calculateNextRunTime_def today tomorrow n j)
  with v today tomorrow n show ?thesis by simp
qed

text \<open>
  Validation also accepts a jitter range from -120 to -60 minutes, and at 05:59 UTC the
  next run time is then 04:00 UTC the same day.
\<close>

lemma calculateNextRunTime_negative_jitter:
  "validateConfig
     (Some (docConfig\<lparr>randomDelayMinutes := \<lparr>minMinutes = - 120, maxMinutes = - 60\<rparr>\<rparr>)) \<and>
   calculateNextRunTime
     (docConfig\<lparr>randomDelayMinutes := \<lparr>minMinutes = - 120, maxMinutes = - 60\<rparr>\<rparr>)
     (utcHost 1704088740000 ''2024-01-01'' 0) 0 = Inr 1704081600000 \<and>
   \<not> now (utcHost 1704088740000 ''2024-01-01'' 0) < 1704081600000"
proof -
  let ?cfg = "docConfig\<lparr>randomDelayMinutes := \<lparr>minMinutes = - 120, maxMinutes = - 60\<rparr>\<rparr>"
  have v: "validateConfig (Some ?cfg)"
    by (simp add: validateConfig_def docConfig_def isDigit_def)
  have z: "getConfiguredTimezoneOffset ?cfg host = Inr (0, [])" for host
    by (simp add: getConfiguredTimezoneOffset_def docConfig_def)
  have p: "parseDailyRunTime (dailyRunTime ?cfg) = Some (6, 0)"
    by (simp add: docConfig_def parse_0600)
  have s: "getScheduledTimeForDate ?cfg (utcHost t d m) u =
      Inr ((u div 86400000) * 86400000 + 21600000)" for t d m u
    by (simp add: getScheduledTimeForDate_value [OF p z] utc_setHours)
  have j: "getRandomDelay ?cfg 0 = - 7200000"
    by (simp add: getRandomDelay_def docConfig_def)
  have "calculateNextRunTime ?cfg (utcHost 1704088740000 ''2024-01-01'' 0) 0 = Inr 1704081600000"
    by (simp add: calculateNextRunTime_def getTodayScheduledTime_def s j)
  with v show ?thesis by simp
qed

subsection \<open>The decision to run now\<close>

text \<open>
  C6 (as amended). On a host whose ISO date is not empty, and when today's scheduled
  instant is computed, \<open>shouldRunNow\<close> answers true exactly when no run date is recorded; or
  the recorded date differs from today and \<open>now\<close> has reached today's scheduled instant; or
  retries are enabled, \<open>consecutiveFailures > 0\<close>, a last failure time is recorded and is not
  0, and \<open>now\<close> has reached it plus the retry delay. It answers true on a state without a
  run date, and false on a state whose run date is today and whose failure count is 0.
\<close>

theorem shouldRunNow_decision:
  assumes iso: "isoDate host \<noteq> []"
  shows "(getTodayScheduledTime cfg host = Inr todayScheduledTime \<longrightarrow>
          shouldRunNow cfg host st =
            Inr (lastRunDate st = [] \<or>
                 (lastRunDate st \<noteq> isoDate host \<and> now host \<ge> todayScheduledTime) \<or>
                 (retryEnabled (retryOnFailure cfg) \<and> consecutiveFailures st > 0 \<and>
                  (\<exists>t. lastFailureTime st = Some t \<and> t \<noteq> 0 \<and>
                       now host \<ge> t + retryDelayMinutes (retryOnFailure cfg) * 60 * 1000)))) \<and>
         shouldRunNow cfg host (st\<lparr>lastRunDate := []\<rparr>) = Inr True \<and>
         shouldRunNow cfg host (st\<lparr>lastRunDate := isoDate host, consecutiveFailures := 0\<rparr>) =
           Inr False"
proof (intro conjI impI)
  assume sched: "getTodayScheduledTime cfg host = Inr todayScheduledTime"
  show "shouldRunNow cfg host st =
            Inr (lastRunDate st = [] \<or>
                 (lastRunDate st \<noteq> isoDate host \<and> now host \<ge> todayScheduledTime) \<or>
                 (retryEnabled (retryOnFailure cfg) \<and> consecutiveFailures st > 0 \<and>
                  (\<exists>t. lastFailureTime st = Some t \<and> t \<noteq> 0 \<and>
                       now host \<ge> t + retryDelayMinutes (retryOnFailure cfg) * 60 * 1000)))"
    using iso sched
    by (cases "lastFailureTime st")
       (auto simp add: shouldRunNow_def getTodayDateString_def truthy_def Let_def split: bool.splits)
next
  show "shouldRunNow cfg host (st\<lparr>lastRunDate := []\<rparr>) = Inr True"
    using iso by (simp add: shouldRunNow_def getTodayDateString_def)
next
  show "shouldRunNow cfg host (st\<lparr>lastRunDate := isoDate host, consecutiveFailures := 0\<rparr>) =
           Inr False"
    using iso by (simp add: shouldRunNow_def getTodayDateString_def)
qed

lemma doc_today: "getTodayScheduledTime docConfig (utcHost 1704176880000 ''2024-01-02'' 0) =
    Inr 1704175200000"
  by (simp add: getTodayScheduledTime_def docConfig_scheduled)

text \<open>
  The documented configuration at 06:28 UTC on 2024-01-02: a run recorded for the day
  before is due, a fresh state is due, a run recorded for today without failures is not.
\<close>

theorem shouldRunNow_decision_witness:
  "shouldRunNow docConfig (utcHost 1704176880000 ''2024-01-02'' 0)
     (defaultState\<lparr>lastRunDate := ''2024-01-01''\<rparr>) = Inr True \<and>
   shouldRunNow docConfig (utcHost 1704176880000 ''2024-01-02'' 0)
     (defaultState\<lparr>lastRunDate := []\<rparr>) = Inr True \<and>
   shouldRunNow docConfig (utcHost 1704176880000 ''2024-01-02'' 0)
     (defaultState\<lparr>lastRunDate := ''2024-01-02'', consecutiveFailures := 0\<rparr>) = Inr False"
proof -
  have iso: "isoDate (utcHost 1704176880000 ''2024-01-02'' 0) \<noteq> []" by simp
  from shouldRunNow_decision [OF iso, of docConfig 1704175200000
      "defaultState\<lparr>lastRunDate := ''2024-01-01''\<rparr>"] doc_today
  have "shouldRunNow docConfig (utcHost 1704176880000 ''2024-01-02'' 0)
     (defaultState\<lparr>lastRunDate := ''2024-01-01''\<rparr>) = Inr True"
    by (simp add: defaultState_def)
  moreover from shouldRunNow_decision [OF iso, of docConfig 1704175200000 defaultState]
  have "shouldRunNow docConfig (utcHost 1704176880000 ''2024-01-02'' 0)
      (defaultState\<lparr>lastRunDate := []\<rparr>) = Inr True"
    and "shouldRunNow docConfig (utcHost 1704176880000 ''2024-01-02'' 0)
     (defaultState\<lparr>lastRunDate := ''2024-01-02'', consecutiveFailures := 0\<rparr>) = Inr False"
    by simp_all
  ultimately show ?thesis by simp
qed

text \<open>
  The claim as stated fails on a state whose last failure time is the instant 0: retries
  are enabled, there is one failure, and \<open>now\<close> is far past that instant plus the delay, yet
  the answer is false, because the source tests the failure time for truthiness.
\<close>

theorem shouldRunNow_zero_failure_time:
  "shouldRunNow docConfig (utcHost 1704089400000 ''2024-01-01'' 0) staleFailureState = Inr False \<and>
   retryEnabled (retryOnFailure docConfig) \<and>
   consecutiveFailures staleFailureState > 0 \<and>
   lastFailureTime staleFailureState = Some 0 \<and>
   now (utcHost 1704089400000 ''2024-01-01'' 0) \<ge>
     0 + retryDelayMinutes (retryOnFailure docConfig) * 60 * 1000"
  by (simp add: shouldRunNow_def getTodayDateString_def truthy_def staleFailureState_def)

subsection \<open>Retries after failed runs\<close>

lemma mainScriptRuns_append [simp]:
  "mainScriptRuns (xs @ ys) = mainScriptRuns xs + mainScriptRuns ys"
  by (induction xs rule: mainScriptRuns.induct) simp_all

lemma scheduleNext_no_run:
  "scheduleNext cfg host rnd sd st = Inr (st', effs) \<Longrightarrow>
   mainScriptRuns effs = 0 \<and> consecutiveFailures st' = consecutiveFailures st \<and>
   lastRunDate st' = lastRunDate st \<and> isRunning st' = isRunning st"
  by (auto simp add: scheduleNext_def Let_def split: if_splits sum.splits)

lemma thenScheduleNext_no_run:
  "thenScheduleNext cfg host rnd sd st effs = (st', effs', err) \<Longrightarrow>
   mainScriptRuns effs' = mainScriptRuns effs \<and>
   consecutiveFailures st' = consecutiveFailures st \<and> lastRunDate st' = lastRunDate st \<and>
   isRunning st' = isRunning st"
  by (auto simp add: thenScheduleNext_def split: sum.splits dest: scheduleNext_no_run)

text \<open>
  Once the failure count has reached \<open>maxRetries\<close> with retries enabled, no call of
  \<open>executeWithRetry\<close>, on whatever day, executes the main script or changes the count.
\<close>

lemma executeWithRetry_capped:
  assumes "retryEnabled (retryOnFailure cfg)"
    and "consecutiveFailures st \<ge> maxRetries (retryOnFailure cfg)"
    and "executeWithRetry cfg host hostAfter rnd sd ok st = (st', effs, err)"
  shows "mainScriptRuns effs = 0 \<and> consecutiveFailures st' = consecutiveFailures st"
  using assms
  by (auto simp add: executeWithRetry_def getTodayDateString_def Let_def
      split: if_splits dest: thenScheduleNext_no_run)

lemma runActivations_capped:
  assumes "retryEnabled (retryOnFailure cfg)"
    and "consecutiveFailures st \<ge> maxRetries (retryOnFailure cfg)"
    and "runActivations cfg calls st = (st', effss)"
  shows "consecutiveFailures st' = consecutiveFailures st \<and>
         (\<forall>effs \<in> set effss. mainScriptRuns effs = 0)"
  using assms(2,3)
proof (induction calls arbitrary: st st' effss)
  case Nil
  then show ?case by simp
next
  case (Cons a later)
  obtain s1 e1 x1 where one:
    "executeWithRetry cfg (atStart a) (atEnd a) (draw a) False (mainOk a) st = (s1, e1, x1)"
    by (metis prod_cases3)
  obtain s2 rest where more: "runActivations cfg later s1 = (s2, rest)" by fastforce
  from executeWithRetry_capped [OF assms(1) Cons.prems(1) one]
  have quiet: "mainScriptRuns e1 = 0" and same: "consecutiveFailures s1 = consecutiveFailures st"
    by simp_all
  from Cons.prems(1) same have "consecutiveFailures s1 \<ge> maxRetries (retryOnFailure cfg)" by simp
  from Cons.IH [OF this more]
  have "consecutiveFailures s2 = consecutiveFailures s1"
    and "\<forall>effs \<in> set rest. mainScriptRuns effs = 0" by simp_all
  moreover from Cons.prems(2) one more have "st' = s2" and "effss = e1 # rest" by simp_all
  ultimately show ?case using quiet same by simp
qed

lemma docConfig_next_run:
  "calculateNextRunTime docConfig (utcHost t d m) (1 / 2) =
     Inr ((if (t div 86400000) * 86400000 + 21600000 \<le> t
           then ((t + 86400000) div 86400000) * 86400000
           else (t div 86400000) * 86400000) + 23280000)"
  by (simp add: calculateNextRunTime_def getTodayScheduledTime_def getTomorrowScheduledTime_def
      docConfig_scheduled utc_setDatePlusOne delay_half)

lemma next_after_third_failure:
  "scheduleNext docConfig (utcHost 1704093180000 ''2024-01-01'' 0) (1 / 2) False st =
     Inr (st\<lparr>nextRunTime := 1704176880000\<rparr>,
          [Log LogInfo ''Next run scheduled'', SetSchedulerTimer 83700000,
           SaveState (st\<lparr>nextRunTime := 1704176880000\<rparr>)])"
  by (simp add: scheduleNext_def docConfig_next_run Let_def)

lemma next_on_second_day:
  "scheduleNext docConfig (utcHost 1704176880000 ''2024-01-02'' 0) (1 / 2) False st =
     Inr (st\<lparr>nextRunTime := 1704263280000\<rparr>,
          [Log LogInfo ''Next run scheduled'', SetSchedulerTimer 86400000,
           SaveState (st\<lparr>nextRunTime := 1704263280000\<rparr>)])"
  by (simp add: scheduleNext_def docConfig_next_run Let_def)

lemma first_failure:
  "executeWithRetry docConfig (utcHost 1704089400000 ''2024-01-01'' 0)
     (utcHost 1704089460000 ''2024-01-01'' 0) (1 / 2) False False defaultState =
   (afterFailures 1 0 1704089460000,
    [SaveState (defaultState\<lparr>isRunning := True\<rparr>),
     Log LogInfo ''Starting scheduled Microsoft Rewards automation'',
     ExecuteMainScript, Log LogError ''Scheduled run failed'',
     Log LogWarn ''Retry scheduled'', SetRetryTimer 1800000,
     SaveState (afterFailures 1 0 1704089460000)], None)"
  by (simp add: executeWithRetry_def getTodayDateString_def defaultState_def afterFailures_def Let_def)

lemma second_failure:
  "executeWithRetry docConfig (utcHost 1704091260000 ''2024-01-01'' 0)
     (utcHost 1704091320000 ''2024-01-01'' 0) (1 / 2) False False
     (afterFailures 1 0 1704089460000) =
   (afterFailures 2 0 1704091320000,
    [SaveState ((afterFailures 1 0 1704089460000)\<lparr>isRunning := True\<rparr>),
     Log LogInfo ''Starting scheduled Microsoft Rewards automation'',
     ExecuteMainScript, Log LogError ''Scheduled run failed'',
     Log LogWarn ''Retry scheduled'', SetRetryTimer 1800000,
     SaveState (afterFailures 2 0 1704091320000)], None)"
  by (simp add: executeWithRetry_def getTodayDateString_def afterFailures_def Let_def)

lemma third_failure:
  "executeWithRetry docConfig (utcHost 1704093120000 ''2024-01-01'' 0)
     (utcHost 1704093180000 ''2024-01-01'' 0) (1 / 2) False False
     (afterFailures 2 0 1704091320000) =
   (afterFailures 3 1704176880000 1704093180000,
    [SaveState ((afterFailures 2 0 1704091320000)\<lparr>isRunning := True\<rparr>),
     Log LogInfo ''Starting scheduled Microsoft Rewards automation'',
     ExecuteMainScript, Log LogError ''Scheduled run failed'',
     SaveState (afterFailures 3 0 1704093180000),
     Log LogInfo ''Next run scheduled'', SetSchedulerTimer 83700000,
     SaveState (afterFailures 3 1704176880000 1704093180000)], None)"
  by (simp add: executeWithRetry_def getTodayDateString_def afterFailures_def Let_def
      thenScheduleNext_def next_after_third_failure)

lemma next_day_skipped:
  "executeWithRetry docConfig (utcHost 1704176880000 ''2024-01-02'' 0)
     (utcHost 1704176940000 ''2024-01-02'' 0) (1 / 2) False True
     (afterFailures 3 1704176880000 1704093180000) =
   (afterFailures 3 1704263280000 1704093180000,
    [Log LogError ''Max retries exceeded for today'',
     Log LogInfo ''Next run scheduled'', SetSchedulerTimer 86400000,
     SaveState (afterFailures 3 1704263280000 1704093180000)], None)"
  by (simp add: executeWithRetry_def getTodayDateString_def afterFailures_def Let_def
      thenScheduleNext_def next_on_second_day)

lemma afterFailures_count: "consecutiveFailures (afterFailures n nextRun failedAt) = n"
  by (simp add: afterFailures_def)

text \<open>
  C2 (the code departs from the claim). The documented configuration (retries enabled,
  \<open>maxRetries = 3\<close>, 30 minutes apart), a fresh state, three failed runs on 2024-01-01
  (06:10, 06:41 and 07:12 UTC) and then the daily timer firing at 06:28 UTC on 2024-01-02
  with a main script that would succeed. The first two failures arm a retry timer of 30
  minutes, the third arms none and arms the daily timer instead, and the count is 3. On the
  next day, past that day's scheduled instant (06:00 UTC), the main script is not executed:
  the call stops at the retry limit, arms the timer for the day after, and leaves the
  count at 3.
\<close>

theorem retries_stay_exhausted_next_day:
  "consecutiveFailures (fst (runActivations docConfig (threeFailures @ [nextDayRun]) defaultState)) = 3 \<and>
   map mainScriptRuns (snd (runActivations docConfig (threeFailures @ [nextDayRun]) defaultState)) =
     [1, 1, 1, 0] \<and>
   map retryTimers (snd (runActivations docConfig (threeFailures @ [nextDayRun]) defaultState)) =
     [[1800000], [1800000], [], []] \<and>
   map schedulerTimers (snd (runActivations docConfig (threeFailures @ [nextDayRun]) defaultState)) =
     [[], [], [83700000], [86400000]] \<and>
   getTodayScheduledTime docConfig (atStart nextDayRun) = Inr 1704175200000 \<and>
   now (atStart nextDayRun) \<ge> 1704175200000"
proof -
  have "getTodayScheduledTime docConfig (atStart nextDayRun) = Inr 1704175200000"
    and "now (atStart nextDayRun) \<ge> 1704175200000"
    by (simp_all add: nextDayRun_def doc_today)
  then show ?thesis
    by (simp add: threeFailures_def nextDayRun_def failedRun_def first_failure second_failure
        third_failure next_day_skipped afterFailures_count)
qed

section \<open>Results about the passes over the accounts\<close>

lemma updateFound_absent: "em \<notin> email ` set rs \<Longrightarrow> updateFound em f rs = rs"
  by (induction rs) auto

lemma Desktop_events: "events (snd (Desktop cfg w a p self)) = events self"
  by (simp add: Desktop_def Let_def split: option.splits)

lemma mobileFinish_events: "events (snd (mobileFinish w a p n self)) = events self"
  by (simp add: mobileFinish_def Let_def split: option.splits)

lemma Mobile_events: "events (snd (Mobile cfg ws a p self)) = events self"
  by (induction ws arbitrary: self)
     (simp_all add: Let_def mobileFinish_events split: option.splits)

lemma Desktop_results_other_pass:
  "p \<noteq> 1 \<Longrightarrow> accountResults (snd (Desktop cfg w a p self)) = accountResults self"
  by (simp add: Desktop_def Let_def split: option.splits)

lemma mobileFinish_results_other_pass:
  "p \<noteq> 1 \<Longrightarrow> accountResults (snd (mobileFinish w a p n self)) = accountResults self"
  by (simp add: mobileFinish_def Let_def split: option.splits)

lemma Mobile_results_other_pass:
  "p \<noteq> 1 \<Longrightarrow> accountResults (snd (Mobile cfg ws a p self)) = accountResults self"
  by (induction ws arbitrary: self)
     (simp_all add: Let_def mobileFinish_results_other_pass split: option.splits)

lemma Desktop_results_absent:
  "accountEmail a \<notin> email ` set (accountResults self) \<Longrightarrow>
   accountResults (snd (Desktop cfg w a p self)) = accountResults self"
  by (simp add: Desktop_def Let_def updateFound_absent split: option.splits)

lemma mobileFinish_results_absent:
  "accountEmail a \<notin> email ` set (accountResults self) \<Longrightarrow>
   accountResults (snd (mobileFinish w a p n self)) = accountResults self"
  by (simp add: mobileFinish_def Let_def updateFound_absent split: option.splits)

lemma Mobile_results_absent:
  "accountEmail a \<notin> email ` set (accountResults self) \<Longrightarrow>
   accountResults (snd (Mobile cfg ws a p self)) = accountResults self"
  by (induction ws arbitrary: self)
     (simp_all add: Let_def mobileFinish_results_absent split: option.splits)


text \<open>The four stages of \<open>Desktop\<close> in a row are the method.\<close>

lemma Desktop_in_steps:
  "Desktop cfg w a p self =
     desktopRun 4 cfg \<lparr>taskWorld = w, taskAccount = a, taskPass = p, taskStage = Opening\<rparr> self"
  by (simp add: eval_nat_numeral Desktop_def desktopStep_def Let_def split: option.splits)

lemma desktopStep_events: "events (snd (desktopStep cfg task self)) = events self"
  by (simp add: desktopStep_def Let_def split: desktop_stage.splits option.splits)

lemma stepDetached_events: "events (stepDetached cfg i self) = events self"
proof (cases "desktopStep cfg (detached self ! i) self")
  case (Pair r b)
  have "events b = events self"
    using desktopStep_events [of cfg "detached self ! i" self] Pair by simp
  then show ?thesis using Pair by (cases r) (simp_all add: stepDetached_def Let_def)
qed

lemma parallelAwait_events:
  "events (snd (parallelAwait cfg sched desk mobileEnd mobileDone self)) = events self"
proof (induction sched arbitrary: desk mobileEnd mobileDone self)
  case Nil
  show ?case by simp
next
  case (Cons ev later)
  show ?case
  proof (cases ev)
    case DesktopStep
    show ?thesis
    proof (cases desk)
      case None
      with DesktopStep show ?thesis by (simp add: Cons.IH)
    next
      case (Some task)
      obtain r b where s: "desktopStep cfg task self = (r, b)" by fastforce
      have b: "events b = events self" using desktopStep_events [of cfg task self] s by simp
      show ?thesis
        using DesktopStep Some s b
        by (cases r) (simp_all add: Cons.IH split: completion.splits)
    qed
  next
    case (DetachedStep i)
    then show ?thesis by (simp add: Cons.IH stepDetached_events)
  next
    case MobileSettles
    then show ?thesis by (cases mobileEnd) (simp_all add: Cons.IH)
  qed
qed

lemma accountWork_events: "events (snd (accountWork cfg w a p self)) = events self"
proof (cases "parallel cfg")
  case True
  then show ?thesis by (simp add: accountWork_def Let_def parallelAwait_events)
next
  case False
  show ?thesis
  proof (cases "Desktop cfg (desktop w) a p (self\<lparr>isMobile := False\<rparr>)")
    case (Pair c b)
    have "events b = events self"
      using Desktop_events [of cfg "desktop w" a p "self\<lparr>isMobile := False\<rparr>"] Pair by simp
    then show ?thesis
      using Pair False by (cases c) (simp_all add: accountWork_def Mobile_events)
  qed
qed

text \<open>
  In the sequential branch the work of a pass other than the first, and the work of an
  account that has no record, leave the records as they are. In the parallel branch a
  detached \<open>Desktop\<close> of the first pass can still change a record then.
\<close>

lemma accountWork_results_other_pass:
  assumes "p \<noteq> 1" and seq: "\<not> parallel cfg"
  shows "accountResults (snd (accountWork cfg w a p self)) = accountResults self"
proof (cases "Desktop cfg (desktop w) a p (self\<lparr>isMobile := False\<rparr>)")
  case (Pair c b)
  have "accountResults b = accountResults self"
    using Desktop_results_other_pass [OF assms(1), of cfg "desktop w" a "self\<lparr>isMobile := False\<rparr>"]
      Pair by simp
  then show ?thesis
    using Pair assms by (cases c) (simp_all add: accountWork_def Mobile_results_other_pass)
qed

lemma accountWork_results_absent:
  assumes "accountEmail a \<notin> email ` set (accountResults self)" and seq: "\<not> parallel cfg"
  shows "accountResults (snd (accountWork cfg w a p self)) = accountResults self"
proof (cases "Desktop cfg (desktop w) a p (self\<lparr>isMobile := False\<rparr>)")
  case (Pair c b)
  have "accountResults b = accountResults self"
    using Desktop_results_absent [of a "self\<lparr>isMobile := False\<rparr>" cfg "desktop w" p]
      assms(1) Pair by simp
  then show ?thesis
    using Pair assms by (cases c) (simp_all add: accountWork_def Mobile_results_absent)
qed

lemma runAllAccounts_not_thrown: "fst (runAllAccounts cfg world accounts p self) \<noteq> Threw e"
proof (induction accounts arbitrary: self)
  case Nil
  show ?case by simp
next
  case (Cons a rest)
  show ?case
    by (cases "accountWork cfg (world a p)
                 a p (self\<lparr>events := events self @ [WorkStarted (accountEmail a) p]\<rparr>)")
       (simp add: Let_def Cons.IH split: completion.splits)
qed

lemma workStarted_append [simp]: "workStarted (xs @ ys) = workStarted xs @ workStarted ys"
  by (induction xs rule: workStarted.induct) simp_all

lemma runAllAccounts_trace:
  "runAllAccounts cfg world accounts p self = (Returned, self') \<Longrightarrow>
   workStarted (events self') =
     workStarted (events self) @ map (\<lambda>a. (accountEmail a, p)) accounts"
proof (induction accounts arbitrary: self)
  case Nil
  then show ?case by simp
next
  case (Cons a rest)
  let ?self0 = "self\<lparr>events := events self @ [WorkStarted (accountEmail a) p]\<rparr>"
  obtain c b where w: "accountWork cfg (world a p) a p ?self0 = (c, b)" by fastforce
  have ev: "events b = events ?self0" using accountWork_events [of cfg "world a p" a p ?self0] w by simp
  show ?case
  proof (cases c)
    case Pending
    with Cons.prems w show ?thesis by (simp add: Let_def)
  next
    case Returned
    let ?b2 = "if p = 1 then b\<lparr>accountResults := accountResults b @
        [createAccountResult (accountEmail a) (orZero (pointsInitial b)) (orZero (pointsInitial b)) 0
           (elapsedSeconds (world a p)) True None]\<rparr> else b"
    from Cons.prems w Returned have "runAllAccounts cfg world rest p ?b2 = (Returned, self')"
      by (simp add: Let_def)
    from Cons.IH [OF this] ev show ?thesis by simp
  next
    case (Threw e)
    let ?b2 = "if p = 1 then b\<lparr>accountResults := accountResults b @
        [createAccountResult (accountEmail a) (orZero (pointsInitial b)) (orZero (pointsInitial b)) 0
           (elapsedSeconds (world a p)) False (Some e)]\<rparr> else b"
    from Cons.prems w Threw have "runAllAccounts cfg world rest p ?b2 = (Returned, self')"
      by (simp add: Let_def)
    from Cons.IH [OF this] ev show ?thesis by simp
  qed
qed

lemma retryPasses_trace:
  "retryPasses cfg world accounts k r self = (Returned, self') \<Longrightarrow>
   workStarted (events self') =
     workStarted (events self) @
     concat (map (\<lambda>p. map (\<lambda>a. (accountEmail a, p)) accounts) [r + 1..k + 1])"
proof (induction cfg world accounts k r self rule: retryPasses.induct)
  case (1 cfg world accounts k r self)
  show ?case
  proof (cases "r \<le> k")
    case False
    then have "retryPasses cfg world accounts k r self = (Returned, self)"
      by (simp add: retryPasses.simps [of cfg world accounts k r self])
    with "1.prems" False show ?thesis by (simp add: upto_empty)
  next
    case True
    let ?d = "(if passDelayMinutes cfg = 0 then 30 else passDelayMinutes cfg) * 60 * 1000"
    let ?self1 = "self\<lparr>events := events self @ [Waited ?d]\<rparr>"
    obtain c b where w: "runAllAccounts cfg world accounts (r + 1) ?self1 = (c, b)" by fastforce
    have nt: "\<And>e. c \<noteq> Threw e"
      using runAllAccounts_not_thrown [of cfg world accounts "r + 1" ?self1] w by simp
    have unfold: "retryPasses cfg world accounts k r self =
        (case c of Pending \<Rightarrow> (Pending, b) | _ \<Rightarrow> retryPasses cfg world accounts k (r + 1) b)"
      using True w
      by (simp add: retryPasses.simps [of cfg world accounts k r self] Let_def
          split: completion.splits)
    show ?thesis
    proof (cases c)
      case Returned
      with unfold "1.prems" have rest: "retryPasses cfg world accounts k (r + 1) b = (Returned, self')"
        by simp
      have ih: "workStarted (events self') = workStarted (events b) @
          concat (map (\<lambda>p. map (\<lambda>a. (accountEmail a, p)) accounts) [r + 1 + 1..k + 1])"
        by (rule "1.IH"(1) [OF True refl refl refl w [symmetric] Returned rest])
      have tr: "workStarted (events b) =
          workStarted (events self) @ map (\<lambda>a. (accountEmail a, r + 1)) accounts"
        using runAllAccounts_trace [of cfg world accounts "r + 1" ?self1 b] w Returned by simp
      have up: "[r + 1..k + 1] = (r + 1) # [r + 1 + 1..k + 1]"
        using True by (simp add: upto_rec1)
      show ?thesis by (simp add: ih tr up)
    next
      case (Threw e)
      with nt show ?thesis by blast
    next
      case Pending
      with unfold "1.prems" show ?thesis by simp
    qed
  qed
qed

lemma retryPasses_not_thrown: "fst (retryPasses cfg world accounts k r self) \<noteq> Threw e"
proof (induction cfg world accounts k r self rule: retryPasses.induct)
  case (1 cfg world accounts k r self)
  show ?case
  proof (cases "r \<le> k")
    case False
    then show ?thesis by (simp add: retryPasses.simps [of cfg world accounts k r self])
  next
    case True
    let ?d = "(if passDelayMinutes cfg = 0 then 30 else passDelayMinutes cfg) * 60 * 1000"
    let ?self1 = "self\<lparr>events := events self @ [Waited ?d]\<rparr>"
    obtain c b where w: "runAllAccounts cfg world accounts (r + 1) ?self1 = (c, b)" by fastforce
    have nt: "\<And>e. c \<noteq> Threw e"
      using runAllAccounts_not_thrown [of cfg world accounts "r + 1" ?self1] w by simp
    have unfold: "retryPasses cfg world accounts k r self =
        (case c of Pending \<Rightarrow> (Pending, b) | _ \<Rightarrow> retryPasses cfg world accounts k (r + 1) b)"
      using True w
      by (simp add: retryPasses.simps [of cfg world accounts k r self] Let_def
          split: completion.splits)
    show ?thesis
    proof (cases c)
      case Returned
      have "fst (retryPasses cfg world accounts k (r + 1) b) \<noteq> Threw e"
        by (rule "1.IH"(1) [OF True refl refl refl w [symmetric] Returned])
      with unfold Returned show ?thesis by simp
    next
      case (Threw e')
      with nt show ?thesis by blast
    next
      case Pending
      with unfold show ?thesis by simp
    qed
  qed
qed

lemma passes_upto:
  "[1..1 + max 0 k] = 1 # [1 + 1..orZero k + 1]"
proof -
  have "[1..1 + max 0 k] = 1 # [1 + 1..1 + max 0 k]" by (simp add: upto_rec1)
  also have "[1 + 1..1 + max 0 k] = [1 + 1..orZero k + 1]"
  proof (cases "0 \<le> k")
    case True
    then show ?thesis by (simp add: orZero_def max_def add.commute)
  next
    case False
    then show ?thesis by (simp add: orZero_def max_def upto_empty)
  qed
  finally show ?thesis .
qed

lemma runTasks_trace:
  assumes "fst (runTasks cfg world accounts t0 t1 self) = Returned"
  shows "workStarted (events (snd (runTasks cfg world accounts t0 t1 self))) =
     workStarted (events self) @
     concat (map (\<lambda>p. map (\<lambda>a. (accountEmail a, p)) accounts) [1..1 + max 0 (dailyRetries cfg)])"
proof -
  let ?k = "orZero (dailyRetries cfg)"
  let ?self0 = "self\<lparr>accountResults := []\<rparr>"
  obtain c1 b1 where p1: "runAllAccounts cfg world accounts 1 ?self0 = (c1, b1)" by fastforce
  obtain c2 b2 where p2: "retryPasses cfg world accounts ?k 1 b1 = (c2, b2)" by fastforce
  have nt1: "\<And>e. c1 \<noteq> Threw e"
    using runAllAccounts_not_thrown [of cfg world accounts 1 ?self0] p1 by simp
  have nt2: "\<And>e. c2 \<noteq> Threw e"
    using retryPasses_not_thrown [of cfg world accounts ?k 1 b1] p2 by simp
  have "c1 \<noteq> Pending" using assms p1 by (auto simp add: runTasks_def Let_def)
  with nt1 have c1: "c1 = Returned" by (cases c1) blast+
  have "c2 \<noteq> Pending" using assms p1 p2 c1 by (auto simp add: runTasks_def Let_def)
  with nt2 have c2: "c2 = Returned" by (cases c2) blast+
  have res: "events (snd (runTasks cfg world accounts t0 t1 self)) =
      events (sendFinalNotification cfg (1 + ?k) t0 t1 b2) @ [ProcessExit]"
    using p1 p2 c1 c2 by (simp add: runTasks_def Let_def)
  have fin: "workStarted (events (sendFinalNotification cfg (1 + ?k) t0 t1 b2)) =
      workStarted (events b2)"
    by (simp add: sendFinalNotification_def)
  have t1: "workStarted (events b1) =
      workStarted (events self) @ map (\<lambda>a. (accountEmail a, 1)) accounts"
    using runAllAccounts_trace [of cfg world accounts 1 ?self0 b1] p1 c1 by simp
  have t2: "workStarted (events b2) = workStarted (events b1) @
      concat (map (\<lambda>p. map (\<lambda>a. (accountEmail a, p)) accounts) [1 + 1..?k + 1])"
    using retryPasses_trace [of cfg world accounts ?k 1 b1 b2] p2 c2 by simp
  show ?thesis
    by (simp only: res workStarted_append fin t2 t1 passes_upto [of "dailyRetries cfg"])
       simp
qed

lemma fullConfig_fields [simp]:
  "runOnZeroPoints fullConfig = False"
  "workers fullConfig = allWorkers"
  "retryMobileSearchAmount fullConfig = 2"
  "finalWebhookEnabled fullConfig = True"
  "dailyRetries fullConfig = 0"
  "passDelayMinutes fullConfig = 30"
  "parallel fullConfig = False"
  by (simp_all add: fullConfig_def)

lemma refused_work:
  "desktop w = refusedDesktop \<Longrightarrow> \<not> parallel cfg \<Longrightarrow>
   accountWork cfg w a p self = (Threw ''Error: login failed'', self\<lparr>isMobile := False\<rparr>)"
  by (simp add: accountWork_def Desktop_def refusedDesktop_def)

lemma earning_desktop:
  "Desktop fullConfig earningDesktop a p self =
     (Returned,
      (if p = 1 then
         self\<lparr>pointsInitial := 100, pointsCanCollect := 150,
               accountResults :=
                 updateFound (accountEmail a)
                   (\<lambda>r. r\<lparr>pointsBefore := 100, pointsAfter := 250, pointsGained := 150,
                          tasksCompleted := 4\<rparr>)
                   (accountResults self)\<rparr>
       else self\<lparr>pointsInitial := 100, pointsCanCollect := 150\<rparr>))"
  by (simp add: Desktop_def earningDesktop_def allWorkers_def oneIf_def Let_def)

lemma earning_mobile:
  "mobileRetryAttempts self = 0 \<Longrightarrow>
   Mobile fullConfig [earningMobile] a p self =
     (Returned,
      (if p = 1 then
         self\<lparr>pointsCanCollect := 75,
               accountResults :=
                 updateFound (accountEmail a)
                   (\<lambda>r. r\<lparr>tasksCompleted := tasksCompleted r + 3, pointsAfter := 325,
                          pointsGained := max 0 (325 - pointsBefore r)\<rparr>)
                   (accountResults self)\<rparr>
       else self\<lparr>pointsCanCollect := 75\<rparr>))"
  by (simp add: mobileFinish_def earningMobile_def allWorkers_def oneIf_def Let_def)

lemma earning_work_first_pass:
  "desktop w = earningDesktop \<Longrightarrow> mobile w = [earningMobile] \<Longrightarrow>
   mobileRetryAttempts self = 0 \<Longrightarrow> accountResults self = [] \<Longrightarrow>
   accountWork fullConfig w a 1 self =
     (Returned, self\<lparr>isMobile := True, pointsInitial := 100, pointsCanCollect := 75\<rparr>)"
  by (simp add: accountWork_def earning_desktop earning_mobile del: Mobile.simps)

text \<open>
  C1 (the code departs from the claim). One account whose desktop flow starts at 100
  points, completes four tasks and ends at 250, and whose mobile flow completes three tasks
  and ends at 325. While the per-account work runs on pass 1 no record of the account
  exists, so the updates in \<open>Desktop\<close> and \<open>Mobile\<close> find nothing; the record is created
  afterwards, with \<open>pointsBefore = pointsAfter = 100\<close> (the bot's \<open>pointsInitial\<close>, not 0), no
  points gained and no task completed. A second account whose login fails right after gets
  a record with the first account's 100 points. Pass 2 creates no record.
\<close>

theorem first_pass_record_created_after_work:
  "accountResults (snd (accountWork fullConfig (earningWorld alice 1) alice 1 newBot)) = [] \<and>
   accountResults (snd (runAllAccounts fullConfig earningWorld [alice] 1 newBot)) =
     [\<lparr>email = ''alice@example.com'', pointsBefore = 100, pointsAfter = 100,
       pointsGained = 0, tasksCompleted = 0, executionDuration = 600, success = True,
       errorMessage = None\<rparr>] \<and>
   map pointsBefore (accountResults (snd (runAllAccounts fullConfig mixedWorld [alice, bob] 1 newBot))) =
     [100, 100] \<and>
   accountResults (snd (runAllAccounts fullConfig earningWorld [alice] 2 newBot)) = []"
proof (intro conjI)
  show "accountResults (snd (accountWork fullConfig (earningWorld alice 1) alice 1 newBot)) = []"
    by (simp add: earning_work_first_pass newBot_def earningWorld_def)
  show "accountResults (snd (runAllAccounts fullConfig earningWorld [alice] 1 newBot)) =
     [\<lparr>email = ''alice@example.com'', pointsBefore = 100, pointsAfter = 100,
       pointsGained = 0, tasksCompleted = 0, executionDuration = 600, success = True,
       errorMessage = None\<rparr>]"
    by (simp add: earning_work_first_pass newBot_def Let_def createAccountResult_def orZero_def
        alice_def earningWorld_def)
  show "map pointsBefore
      (accountResults (snd (runAllAccounts fullConfig mixedWorld [alice, bob] 1 newBot))) =
     [100, 100]"
    by (simp add: mixedWorld_def earning_work_first_pass refused_work newBot_def Let_def
        createAccountResult_def orZero_def alice_def bob_def earningWorld_def refusingWorld_def)
  show "accountResults (snd (runAllAccounts fullConfig earningWorld [alice] 2 newBot)) = []"
    by (simp add: accountWork_def earningWorld_def earning_desktop earning_mobile newBot_def
        Let_def del: Mobile.simps)
qed

lemma runAllAccounts_other_pass_records:
  assumes "p \<noteq> 1" and "\<not> parallel cfg"
  shows "accountResults (snd (runAllAccounts cfg world accounts p self)) = accountResults self"
proof (induction accounts arbitrary: self)
  case Nil
  show ?case by simp
next
  case (Cons a rest)
  let ?self0 = "self\<lparr>events := events self @ [WorkStarted (accountEmail a) p]\<rparr>"
  obtain c b where w: "accountWork cfg (world a p) a p ?self0 = (c, b)" by fastforce
  have "accountResults b = accountResults self"
    using accountWork_results_other_pass [OF assms, of "world a p" a ?self0] w by simp
  then show ?case
    using w assms(1) Cons.IH [of b]
    by (cases c) (simp_all add: Let_def)
qed

text \<open>
  The same holds for every run of the sequential branch: on pass 1, with pairwise different
  e-mail addresses none of which has a record yet, each account gets one record, created
  after its work, in which \<open>pointsAfter = pointsBefore\<close>, no points are gained and no task is
  completed.
\<close>

lemma runAllAccounts_first_pass_records:
  assumes "distinct (map accountEmail accounts)"
    and "accountEmail ` set accounts \<inter> email ` set (accountResults self) = {}"
    and "runAllAccounts cfg world accounts 1 self = (Returned, self')"
    and seq: "\<not> parallel cfg"
  shows "\<exists>new. accountResults self' = accountResults self @ new \<and>
           map email new = map accountEmail accounts \<and>
           (\<forall>r \<in> set new. pointsAfter r = pointsBefore r \<and> pointsGained r = 0 \<and>
                           tasksCompleted r = 0)"
  using assms
proof (induction accounts arbitrary: self)
  case Nil
  then show ?case by simp
next
  case (Cons a rest)
  let ?self0 = "self\<lparr>events := events self @ [WorkStarted (accountEmail a) 1]\<rparr>"
  obtain c b where w: "accountWork cfg (world a 1) a 1 ?self0 = (c, b)" by fastforce
  from Cons.prems(2) have absent: "accountEmail a \<notin> email ` set (accountResults ?self0)" by auto
  have same: "accountResults b = accountResults self"
    using accountWork_results_absent [OF absent seq, of "world a 1" 1] w by simp
  define ok where "ok = (c = Returned)"
  define msg where "msg = (case c of Threw e \<Rightarrow> Some e | _ \<Rightarrow> None)"
  define rec where "rec = createAccountResult (accountEmail a) (orZero (pointsInitial b))
      (orZero (pointsInitial b)) 0 (elapsedSeconds (world a 1)) ok msg"
  let ?b2 = "b\<lparr>accountResults := accountResults b @ [rec]\<rparr>"
  have notPending: "c \<noteq> Pending" using Cons.prems(3) w by (auto simp add: Let_def)
  then have step: "runAllAccounts cfg world (a # rest) 1 self = runAllAccounts cfg world rest 1 ?b2"
    using w by (cases c) (simp_all add: Let_def rec_def ok_def msg_def)
  with Cons.prems(3) have rest: "runAllAccounts cfg world rest 1 ?b2 = (Returned, self')" by simp
  have rec_fields: "email rec = accountEmail a" "pointsAfter rec = pointsBefore rec"
    "pointsGained rec = 0" "tasksCompleted rec = 0"
    by (simp_all add: rec_def createAccountResult_def)
  from Cons.prems(1) have d: "distinct (map accountEmail rest)"
    and fresh: "accountEmail a \<notin> accountEmail ` set rest" by auto
  have disj: "accountEmail ` set rest \<inter> email ` set (accountResults ?b2) = {}"
    using Cons.prems(2) fresh same rec_fields(1) by auto
  from Cons.IH [OF d disj rest seq] obtain new where
    n1: "accountResults self' = accountResults ?b2 @ new" and
    n2: "map email new = map accountEmail rest" and
    n3: "\<forall>r \<in> set new. pointsAfter r = pointsBefore r \<and> pointsGained r = 0 \<and> tasksCompleted r = 0"
    by blast
  have "accountResults self' = accountResults self @ (rec # new)" using n1 same by simp
  moreover have "map email (rec # new) = map accountEmail (a # rest)" using n2 rec_fields(1) by simp
  moreover have "\<forall>r \<in> set (rec # new). pointsAfter r = pointsBefore r \<and> pointsGained r = 0 \<and>
      tasksCompleted r = 0"
    using n3 rec_fields by simp
  ultimately show ?case by blast
qed

lemma runAllAccounts_settles:
  assumes "\<forall>a p s. fst (accountWork cfg (world a p) a p s) \<noteq> Pending"
  shows "fst (runAllAccounts cfg world accounts p self) = Returned"
proof (induction accounts arbitrary: self)
  case Nil
  show ?case by simp
next
  case (Cons a rest)
  let ?self0 = "self\<lparr>events := events self @ [WorkStarted (accountEmail a) p]\<rparr>"
  obtain c b where w: "accountWork cfg (world a p) a p ?self0 = (c, b)" by fastforce
  have "c \<noteq> Pending" using assms w by (metis fst_conv)
  then show ?case using w Cons.IH by (cases c) (simp_all add: Let_def)
qed

lemma retryPasses_settles:
  assumes "\<forall>a p s. fst (accountWork cfg (world a p) a p s) \<noteq> Pending"
  shows "fst (retryPasses cfg world accounts k r self) = Returned"
  using assms
proof (induction cfg world accounts k r self rule: retryPasses.induct)
  case (1 cfg world accounts k r self)
  show ?case
  proof (cases "r \<le> k")
    case False
    then show ?thesis by (simp add: retryPasses.simps [of cfg world accounts k r self])
  next
    case True
    let ?d = "(if passDelayMinutes cfg = 0 then 30 else passDelayMinutes cfg) * 60 * 1000"
    let ?self1 = "self\<lparr>events := events self @ [Waited ?d]\<rparr>"
    obtain c b where w: "runAllAccounts cfg world accounts (r + 1) ?self1 = (c, b)" by fastforce
    have c: "c = Returned"
      using runAllAccounts_settles [OF "1.prems", of accounts "r + 1" ?self1] w by simp
    have "retryPasses cfg world accounts k r self = retryPasses cfg world accounts k (r + 1) b"
      using True w c by (simp add: retryPasses.simps [of cfg world accounts k r self] Let_def)
    moreover have "fst (retryPasses cfg world accounts k (r + 1) b) = Returned"
      by (rule "1.IH"(1) [OF True refl refl refl w [symmetric] c "1.prems"])
    ultimately show ?thesis by simp
  qed
qed

lemma runTasks_settles:
  assumes "\<forall>a p s. fst (accountWork cfg (world a p) a p s) \<noteq> Pending"
  shows "fst (runTasks cfg world accounts t0 t1 self) = Returned"
proof -
  let ?k = "orZero (dailyRetries cfg)"
  let ?self0 = "self\<lparr>accountResults := []\<rparr>"
  obtain c1 b1 where p1: "runAllAccounts cfg world accounts 1 ?self0 = (c1, b1)" by fastforce
  obtain c2 b2 where p2: "retryPasses cfg world accounts ?k 1 b1 = (c2, b2)" by fastforce
  have c1: "c1 = Returned" using runAllAccounts_settles [OF assms, of accounts 1 ?self0] p1 by simp
  have c2: "c2 = Returned" using retryPasses_settles [OF assms, of accounts ?k 1 b1] p2 by simp
  show ?thesis using p1 p2 c1 c2 by (simp add: runTasks_def Let_def)
qed

lemma count_in_pass:
  assumes "distinct (map accountEmail accounts)" and "a \<in> set accounts"
  shows "length (filter (\<lambda>b. accountEmail b = accountEmail a) accounts) = 1"
  using assms
proof (induction accounts)
  case Nil
  then show ?case by simp
next
  case (Cons b rest)
  show ?case
  proof (cases "accountEmail b = accountEmail a")
    case True
    with Cons.prems(1) have "accountEmail a \<notin> accountEmail ` set rest" by simp
    then have "\<forall>x \<in> set rest. accountEmail x \<noteq> accountEmail a" by (metis imageI)
    then have "filter (\<lambda>b. accountEmail b = accountEmail a) rest = []"
      by (simp add: filter_empty_conv)
    with True show ?thesis by simp
  next
    case False
    with Cons.prems have "a \<in> set rest" and "distinct (map accountEmail rest)" by auto
    with Cons.IH False show ?thesis by simp
  qed
qed

lemma count_over_passes:
  assumes "distinct (map accountEmail accounts)" and "a \<in> set accounts"
  shows "length (filter (\<lambda>x. fst x = accountEmail a)
           (concat (map (\<lambda>p. map (\<lambda>b. (accountEmail b, p)) accounts) ps))) = length ps"
  by (induction ps) (simp_all add: filter_map o_def count_in_pass [OF assms])

text \<open>
  A run also completes when the calls of the per-account work settle on the bots that the
  run itself goes through, here the bots that satisfy \<open>I\<close>, a property that the trace and
  the records do not affect.
\<close>

lemma runAllAccounts_settles_while:
  assumes step: "\<And>a p s. I s \<Longrightarrow> fst (accountWork cfg (world a p) a p s) \<noteq> Pending \<and>
                            I (snd (accountWork cfg (world a p) a p s))"
    and ev: "\<And>s evs. I (s\<lparr>events := evs\<rparr>) = I s"
    and res: "\<And>s rs. I (s\<lparr>accountResults := rs\<rparr>) = I s"
    and start: "I self"
  shows "fst (runAllAccounts cfg world accounts p self) = Returned \<and>
         I (snd (runAllAccounts cfg world accounts p self))"
  using start
proof (induction accounts arbitrary: self)
  case Nil
  then show ?case by simp
next
  case (Cons a rest)
  let ?self0 = "self\<lparr>events := events self @ [WorkStarted (accountEmail a) p]\<rparr>"
  obtain c b where w: "accountWork cfg (world a p) a p ?self0 = (c, b)" by fastforce
  have "I ?self0" using Cons.prems by (simp add: ev)
  from step [OF this, of a p] w have c: "c \<noteq> Pending" and b: "I b" by simp_all
  define b2 where "b2 =
    (if p = 1 then
       b\<lparr>accountResults := accountResults b @
         [createAccountResult (accountEmail a) (orZero (pointsInitial b))
            (orZero (pointsInitial b)) 0 (elapsedSeconds (world a p)) (c = Returned)
            (case c of Threw e \<Rightarrow> Some e | _ \<Rightarrow> None)]\<rparr>
     else b)"
  have "I b2" using b by (simp add: b2_def res)
  moreover have "runAllAccounts cfg world (a # rest) p self = runAllAccounts cfg world rest p b2"
    using w c by (cases c) (simp_all add: Let_def b2_def)
  ultimately show ?case using Cons.IH [of b2] by simp
qed

lemma retryPasses_settles_while:
  assumes step: "\<And>a p s. I s \<Longrightarrow> fst (accountWork cfg (world a p) a p s) \<noteq> Pending \<and>
                            I (snd (accountWork cfg (world a p) a p s))"
    and ev: "\<And>s evs. I (s\<lparr>events := evs\<rparr>) = I s"
    and res: "\<And>s rs. I (s\<lparr>accountResults := rs\<rparr>) = I s"
    and start: "I self"
  shows "fst (retryPasses cfg world accounts k r self) = Returned"
  using assms
proof (induction cfg world accounts k r self rule: retryPasses.induct)
  case (1 cfg world accounts k r self)
  show ?case
  proof (cases "r \<le> k")
    case False
    then show ?thesis by (simp add: retryPasses.simps [of cfg world accounts k r self])
  next
    case True
    let ?d = "(if passDelayMinutes cfg = 0 then 30 else passDelayMinutes cfg) * 60 * 1000"
    let ?self1 = "self\<lparr>events := events self @ [Waited ?d]\<rparr>"
    obtain c b where w: "runAllAccounts cfg world accounts (r + 1) ?self1 = (c, b)" by fastforce
    have "I ?self1" using "1.prems"(4) by (simp add: "1.prems"(2))
    from runAllAccounts_settles_while [of I cfg world ?self1 accounts "r + 1",
        OF "1.prems"(1) "1.prems"(2) "1.prems"(3) this] w
    have c: "c = Returned" and b: "I b" by simp_all
    have "retryPasses cfg world accounts k r self = retryPasses cfg world accounts k (r + 1) b"
      using True w c by (simp add: retryPasses.simps [of cfg world accounts k r self] Let_def)
    moreover have "fst (retryPasses cfg world accounts k (r + 1) b) = Returned"
      by (rule "1.IH"(1) [OF True refl refl refl w [symmetric] c "1.prems"(1) "1.prems"(2)
            "1.prems"(3) b])
    ultimately show ?thesis by simp
  qed
qed

lemma runTasks_settles_while:
  assumes step: "\<And>a p s. I s \<Longrightarrow> fst (accountWork cfg (world a p) a p s) \<noteq> Pending \<and>
                            I (snd (accountWork cfg (world a p) a p s))"
    and ev: "\<And>s evs. I (s\<lparr>events := evs\<rparr>) = I s"
    and res: "\<And>s rs. I (s\<lparr>accountResults := rs\<rparr>) = I s"
    and start: "I self"
  shows "fst (runTasks cfg world accounts t0 t1 self) = Returned"
proof -
  let ?k = "orZero (dailyRetries cfg)"
  let ?self0 = "self\<lparr>accountResults := []\<rparr>"
  obtain c1 b1 where p1: "runAllAccounts cfg world accounts 1 ?self0 = (c1, b1)" by fastforce
  obtain c2 b2 where p2: "retryPasses cfg world accounts ?k 1 b1 = (c2, b2)" by fastforce
  have "I ?self0" using start by (simp add: res)
  from runAllAccounts_settles_while [of I cfg world ?self0 accounts 1, OF step ev res this] p1
  have c1: "c1 = Returned" and b1: "I b1" by simp_all
  have c2: "c2 = Returned"
    using retryPasses_settles_while [of I cfg world b1 accounts ?k 1, OF step ev res b1] p2
    by simp
  show ?thesis using p1 p2 c1 c2 by (simp add: runTasks_def Let_def)
qed

lemma runTasks_not_thrown: "fst (runTasks cfg world accounts t0 t1 self) \<noteq> Threw e"
proof -
  let ?k = "orZero (dailyRetries cfg)"
  let ?self0 = "self\<lparr>accountResults := []\<rparr>"
  obtain c1 b1 where p1: "runAllAccounts cfg world accounts 1 ?self0 = (c1, b1)" by fastforce
  obtain c2 b2 where p2: "retryPasses cfg world accounts ?k 1 b1 = (c2, b2)" by fastforce
  show ?thesis
    using p1 p2 by (cases c1; cases c2) (simp_all add: runTasks_def Let_def)
qed

text \<open>
  The number of passes that a completed run reports to the final webhook is
  \<open>1 + dailyRetries\<close>, also when that is not the number of passes it ran.
\<close>

lemma runTasks_reports_total_passes:
  assumes "fst (runTasks cfg world accounts t0 t1 self) = Returned"
    and "finalWebhookEnabled cfg"
  shows "\<exists>s. SentFinalWebhook s \<in> set (events (snd (runTasks cfg world accounts t0 t1 self))) \<and>
             retryPassesUsed s = 1 + dailyRetries cfg"
proof -
  let ?k = "orZero (dailyRetries cfg)"
  let ?self0 = "self\<lparr>accountResults := []\<rparr>"
  obtain c1 b1 where p1: "runAllAccounts cfg world accounts 1 ?self0 = (c1, b1)" by fastforce
  obtain c2 b2 where p2: "retryPasses cfg world accounts ?k 1 b1 = (c2, b2)" by fastforce
  have n1: "c1 \<noteq> Pending" using assms(1) p1 by (auto simp add: runTasks_def Let_def)
  have n2: "c2 \<noteq> Pending" using assms(1) p1 p2 n1
    by (cases c1) (auto simp add: runTasks_def Let_def)
  have "events (snd (runTasks cfg world accounts t0 t1 self)) =
      events (sendFinalNotification cfg (1 + ?k) t0 t1 b2) @ [ProcessExit]"
    using p1 p2 n1 n2 by (cases c1; cases c2) (simp_all add: runTasks_def Let_def)
  then have "SentFinalWebhook (createFinalSummary (accountResults b2) (1 + ?k) t0 t1)
      \<in> set (events (snd (runTasks cfg world accounts t0 t1 self)))"
    using assms(2) by (simp add: sendFinalNotification_def)
  moreover have "retryPassesUsed (createFinalSummary (accountResults b2) (1 + ?k) t0 t1) =
      1 + dailyRetries cfg"
    by (simp add: createFinalSummary_def Let_def orZero_def)
  ultimately show ?thesis by blast
qed

text \<open>
  C4 (as amended). A run of \<open>runTasks\<close> that is not left pending, in the sequential or in
  the parallel branch, completes, and has entered the per-account work once per account in
  account order in each of the passes \<open>1, ..., 1 + max(0, dailyRetries)\<close>, whatever the calls
  did; with pairwise different e-mail addresses that is \<open>1 + max(0, dailyRetries)\<close> entries
  per account. The number of passes that it reports to the final webhook, when that is
  enabled, is \<open>1 + dailyRetries\<close>.
\<close>

theorem runTasks_invocations:
  assumes completes: "fst (runTasks cfg world accounts t0 t1 self) \<noteq> Pending"
  shows "fst (runTasks cfg world accounts t0 t1 self) = Returned \<and>
         workStarted (events (snd (runTasks cfg world accounts t0 t1 self))) =
           workStarted (events self) @ passesInOrder accounts (1 + max 0 (dailyRetries cfg)) \<and>
         (distinct (map accountEmail accounts) \<longrightarrow>
          (\<forall>a \<in> set accounts.
             length (filter (\<lambda>x. fst x = accountEmail a)
                       (passesInOrder accounts (1 + max 0 (dailyRetries cfg)))) =
             nat (1 + max 0 (dailyRetries cfg)))) \<and>
         (finalWebhookEnabled cfg \<longrightarrow>
          (\<exists>s. SentFinalWebhook s \<in> set (events (snd (runTasks cfg world accounts t0 t1 self))) \<and>
               retryPassesUsed s = 1 + dailyRetries cfg))"
proof (intro conjI impI ballI)
  show r: "fst (runTasks cfg world accounts t0 t1 self) = Returned"
    using completes runTasks_not_thrown [of cfg world accounts t0 t1 self]
    by (cases "fst (runTasks cfg world accounts t0 t1 self)") blast+
  show "workStarted (events (snd (runTasks cfg world accounts t0 t1 self))) =
           workStarted (events self) @ passesInOrder accounts (1 + max 0 (dailyRetries cfg))"
    using runTasks_trace [OF r] by (simp add: passesInOrder_def)
  show "\<exists>s. SentFinalWebhook s \<in> set (events (snd (runTasks cfg world accounts t0 t1 self))) \<and>
            retryPassesUsed s = 1 + dailyRetries cfg"
    if "finalWebhookEnabled cfg"
    by (rule runTasks_reports_total_passes [OF r that])
next
  fix a
  assume "distinct (map accountEmail accounts)" and "a \<in> set accounts"
  then show "length (filter (\<lambda>x. fst x = accountEmail a)
                       (passesInOrder accounts (1 + max 0 (dailyRetries cfg)))) =
             nat (1 + max 0 (dailyRetries cfg))"
    by (simp add: passesInOrder_def count_over_passes)
qed

lemma refusingWorld_settles:
  "\<not> parallel cfg \<Longrightarrow> \<forall>a p s. fst (accountWork cfg (refusingWorld a p) a p s) \<noteq> Pending"
  by (simp add: refused_work refusingWorld_def)

text \<open>
  On the site on which an account earns points the per-account work returns on every bot
  whose count of mobile retries is 0, and leaves the count at 0.
\<close>

lemma earning_work_returns:
  assumes "desktop w = earningDesktop" and "mobile w = [earningMobile]"
    and "mobileRetryAttempts self = 0" and "\<not> parallel cfg" and "workers cfg = allWorkers"
  shows "fst (accountWork cfg w a p self) = Returned \<and>
         mobileRetryAttempts (snd (accountWork cfg w a p self)) = 0"
  using assms
  by (simp add: accountWork_def Desktop_def earningDesktop_def mobileFinish_def
      earningMobile_def allWorkers_def oneIf_def Let_def)

text \<open>
  The parallel branch on two accounts. The mobile flow of the first account fails when its
  desktop flow has read the 100 points of the account, so the account's record is created
  with these and with the failure. The desktop flow goes on while the second account is
  processed, finds the record and fills in the 250 points and the four tasks. Both logins
  of the second account fail, and its record gets the first account's 100 points.
\<close>

lemma parallel_detached_desktop:
  "runAllAccounts parallelConfig racingWorld [alice, bob] 1 newBot =
     (Returned,
      newBot\<lparr>pointsInitial := 100, pointsCanCollect := 150,
             accountResults :=
               [\<lparr>email = ''alice@example.com'', pointsBefore = 100, pointsAfter = 250,
                 pointsGained = 150, tasksCompleted = 4, executionDuration = 40,
                 success = False, errorMessage = Some ''Error: mobile login failed''\<rparr>,
                \<lparr>email = ''bob@example.com'', pointsBefore = 100, pointsAfter = 100,
                 pointsGained = 0, tasksCompleted = 0, executionDuration = 12,
                 success = False, errorMessage = Some ''Error: login failed''\<rparr>],
             events := [WorkStarted ''alice@example.com'' 1, WorkStarted ''bob@example.com'' 1]\<rparr>)"
  by (simp add: parallelConfig_def racingWorld_def accountWork_def desktopStep_def
      stepDetached_def earningDesktop_def refusedDesktop_def lockedMobile_def earningMobile_def
      newMicrosoftRewardsBot_def newBot_def alice_def bob_def Let_def createAccountResult_def
      orZero_def allWorkers_def oneIf_def)

text \<open>
  When both flows return, the record is created after them, as in the sequential branch:
  the update in \<open>Desktop\<close> has found no record, and the update in \<open>Mobile\<close> looks at the
  records of the other bot.
\<close>

lemma parallel_record_created_after_work:
  "accountResults (snd (runAllAccounts parallelConfig steadyWorld [alice] 1 newBot)) =
     [\<lparr>email = ''alice@example.com'', pointsBefore = 100, pointsAfter = 100,
       pointsGained = 0, tasksCompleted = 0, executionDuration = 600, success = True,
       errorMessage = None\<rparr>]"
  by (simp add: parallelConfig_def steadyWorld_def accountWork_def desktopStep_def
      earningDesktop_def earningMobile_def mobileFinish_def
      newMicrosoftRewardsBot_def newBot_def alice_def Let_def createAccountResult_def
      orZero_def allWorkers_def oneIf_def)

text \<open>
  Two accounts that earn points, \<open>dailyRetries = 2\<close>, sequential branch: the run completes
  with three passes, each over both accounts in order, three entries for the second
  account, and 3 passes reported. Two accounts in the parallel branch whose work throws
  every time, \<open>dailyRetries = 0\<close>: the run completes with one pass over both accounts.
\<close>

theorem runTasks_invocations_witness:
  "fst (runTasks (fullConfig\<lparr>dailyRetries := 2\<rparr>) earningWorld [alice, bob] 0 5000 newBot) =
     Returned \<and>
   workStarted (events (snd (runTasks (fullConfig\<lparr>dailyRetries := 2\<rparr>) earningWorld
                               [alice, bob] 0 5000 newBot))) =
     [(''alice@example.com'', 1), (''bob@example.com'', 1),
      (''alice@example.com'', 2), (''bob@example.com'', 2),
      (''alice@example.com'', 3), (''bob@example.com'', 3)] \<and>
   length (filter (\<lambda>x. fst x = ''bob@example.com'')
             (passesInOrder [alice, bob] (1 + max 0 (dailyRetries (fullConfig\<lparr>dailyRetries := 2\<rparr>))))) =
     3 \<and>
   (\<exists>s. SentFinalWebhook s \<in>
          set (events (snd (runTasks (fullConfig\<lparr>dailyRetries := 2\<rparr>) earningWorld
                              [alice, bob] 0 5000 newBot))) \<and>
        retryPassesUsed s = 3) \<and>
   fst (runTasks parallelConfig racingWorld [alice, bob] 0 5000 newBot) = Returned \<and>
   workStarted (events (snd (runTasks parallelConfig racingWorld [alice, bob] 0 5000 newBot))) =
     [(''alice@example.com'', 1), (''bob@example.com'', 1)]"
proof -
  let ?cfg = "fullConfig\<lparr>dailyRetries := 2\<rparr>"
  have three: "[1..3::int] = [1, 2, 3]" by (simp add: upto_rec1)
  have different: "distinct (map accountEmail [alice, bob])" by (simp add: alice_def bob_def)
  have step: "fst (accountWork ?cfg (earningWorld a p) a p s) \<noteq> Pending \<and>
      mobileRetryAttempts (snd (accountWork ?cfg (earningWorld a p) a p s)) = 0"
    if "mobileRetryAttempts s = 0" for a p s
    using earning_work_returns [of "earningWorld a p" s ?cfg a p] that
    by (simp add: earningWorld_def)
  have "fst (runTasks ?cfg earningWorld [alice, bob] 0 5000 newBot) = Returned"
    by (rule runTasks_settles_while [of "\<lambda>s. mobileRetryAttempts s = 0"])
       (simp_all add: step newBot_def)
  then have completes: "fst (runTasks ?cfg earningWorld [alice, bob] 0 5000 newBot) \<noteq> Pending"
    by simp
  note all = runTasks_invocations [OF completes]
  from all different have "length (filter (\<lambda>x. fst x = accountEmail bob)
      (passesInOrder [alice, bob] (1 + max 0 (dailyRetries ?cfg)))) =
      nat (1 + max 0 (dailyRetries ?cfg))"
    by simp
  then have count: "length (filter (\<lambda>x. fst x = ''bob@example.com'')
      (passesInOrder [alice, bob] (1 + max 0 (dailyRetries ?cfg)))) = 3"
    by (simp add: bob_def)
  from all have returned: "fst (runTasks ?cfg earningWorld [alice, bob] 0 5000 newBot) = Returned"
    and trace: "workStarted (events (snd (runTasks ?cfg earningWorld [alice, bob] 0 5000 newBot))) =
     [(''alice@example.com'', 1), (''bob@example.com'', 1),
      (''alice@example.com'', 2), (''bob@example.com'', 2),
      (''alice@example.com'', 3), (''bob@example.com'', 3)]"
    by (simp_all add: passesInOrder_def three newBot_def alice_def bob_def)
  from all have reported: "\<exists>s. SentFinalWebhook s \<in>
      set (events (snd (runTasks ?cfg earningWorld [alice, bob] 0 5000 newBot))) \<and>
      retryPassesUsed s = 3"
    by simp
  have p1: "fst (runAllAccounts parallelConfig racingWorld [alice, bob] 1
      (newBot\<lparr>accountResults := []\<rparr>)) = Returned"
    using parallel_detached_desktop by (simp add: newBot_def)
  have p2: "retryPasses parallelConfig racingWorld [alice, bob] 0 1 s = (Returned, s)" for s
    by (simp add: retryPasses.simps [of parallelConfig racingWorld "[alice, bob]" 0 1 s])
  have none: "dailyRetries parallelConfig = 0" by (simp add: parallelConfig_def)
  have "fst (runTasks parallelConfig racingWorld [alice, bob] 0 5000 newBot) \<noteq> Pending"
    using p1
    by (cases "runAllAccounts parallelConfig racingWorld [alice, bob] 1
                 (newBot\<lparr>accountResults := []\<rparr>)")
       (simp add: runTasks_def none orZero_def p2 Let_def del: runAllAccounts.simps)
  note par = runTasks_invocations [OF this]
  have one: "[1..1::int] = [1]" by (simp add: upto_rec1)
  from par have "fst (runTasks parallelConfig racingWorld [alice, bob] 0 5000 newBot) = Returned"
    and "workStarted (events (snd (runTasks parallelConfig racingWorld [alice, bob] 0 5000
                                     newBot))) =
     [(''alice@example.com'', 1), (''bob@example.com'', 1)]"
    by (simp_all add: passesInOrder_def one newBot_def alice_def bob_def none)
  with returned trace count reported show ?thesis by blast
qed

text \<open>
  The claim as stated asks for \<open>k + 1\<close> entries per account for every integer \<open>k\<close>. With
  \<open>dailyRetries = -1\<close> the one account is still processed once, not \<open>k + 1 = 0\<close> times.
\<close>

theorem negative_retries_one_pass:
  "workStarted (events (snd (runTasks (fullConfig\<lparr>dailyRetries := - 1\<rparr>) refusingWorld
                               [alice] 0 5000 newBot))) =
     [(''alice@example.com'', 1)] \<and>
   int (length (workStarted (events (snd (runTasks (fullConfig\<lparr>dailyRetries := - 1\<rparr>)
                                            refusingWorld [alice] 0 5000 newBot))))) \<noteq>
     dailyRetries (fullConfig\<lparr>dailyRetries := - 1\<rparr>) + 1"
proof -
  let ?cfg = "fullConfig\<lparr>dailyRetries := - 1\<rparr>"
  have p1: "runAllAccounts ?cfg refusingWorld [alice] 1 (newBot\<lparr>accountResults := []\<rparr>) =
      (Returned,
       newBot\<lparr>accountResults :=
                [createAccountResult ''alice@example.com'' 0 0 0 12 False
                   (Some ''Error: login failed'')],
              events := [WorkStarted ''alice@example.com'' 1]\<rparr>)"
    by (simp add: refused_work refusingWorld_def Let_def alice_def newBot_def orZero_def)
  have p2: "retryPasses ?cfg refusingWorld [alice] (- 1) 1 s = (Returned, s)" for s
    by (simp add: retryPasses.simps [of ?cfg refusingWorld "[alice]" "- 1" 1 s])
  have "workStarted (events (snd (runTasks ?cfg refusingWorld [alice] 0 5000 newBot))) =
      [(''alice@example.com'', 1)]"
    by (simp add: runTasks_def orZero_def p1 p2 Let_def sendFinalNotification_def
        del: runAllAccounts.simps)
  then show ?thesis by simp
qed

subsection \<open>Consistency of the recorded gains\<close>

text \<open>
  Creating a record and the updates in \<open>Desktop\<close> and \<open>Mobile\<close> keep every record of the bot
  consistent, in whatever order the stages of the parallel branch run, so every record
  handed to the final summary is.
\<close>

lemma updateFound_preserves:
  assumes "\<And>r. P r \<Longrightarrow> P (f r)" and "\<forall>r \<in> set rs. P r"
  shows "\<forall>r \<in> set (updateFound em f rs). P r"
  using assms(2) by (induction rs) (auto intro: assms(1))

lemma Desktop_gainConsistent:
  assumes "\<forall>r \<in> set (accountResults self). gainConsistent r"
  shows "\<forall>r \<in> set (accountResults (snd (Desktop cfg w a p self))). gainConsistent r"
proof -
  have "\<forall>r \<in> set (updateFound (accountEmail a)
            (\<lambda>r. r\<lparr>pointsBefore := availablePoints w, pointsAfter := currentPoints w,
                   pointsGained := max 0 (currentPoints w - availablePoints w),
                   tasksCompleted := n\<rparr>)
            (accountResults self)). gainConsistent r" for n
    by (rule updateFound_preserves [OF _ assms]) (simp add: gainConsistent_def)
  then show ?thesis
    using assms by (simp add: Desktop_def Let_def split: option.splits)
qed

lemma mobileFinish_gainConsistent:
  assumes "\<forall>r \<in> set (accountResults self). gainConsistent r"
  shows "\<forall>r \<in> set (accountResults (snd (mobileFinish w a p n self))). gainConsistent r"
proof -
  have "\<forall>r \<in> set (updateFound (accountEmail a)
            (\<lambda>r. r\<lparr>tasksCompleted := tasksCompleted r + n, pointsAfter := afterPointAmount w,
                   pointsGained := max 0 (afterPointAmount w - pointsBefore r)\<rparr>)
            (accountResults self)). gainConsistent r"
    by (rule updateFound_preserves [OF _ assms]) (simp add: gainConsistent_def)
  then show ?thesis
    using assms by (simp add: mobileFinish_def Let_def split: option.splits)
qed

lemma Mobile_gainConsistent:
  "\<forall>r \<in> set (accountResults self). gainConsistent r \<Longrightarrow>
   \<forall>r \<in> set (accountResults (snd (Mobile cfg ws a p self))). gainConsistent r"
proof (induction ws arbitrary: self)
  case Nil
  then show ?case by simp
next
  case (Cons w later)
  let ?s1 = "self\<lparr>pointsCanCollect := mobileSearchPoints w + totalEarnablePoints w\<rparr>"
  let ?s2 = "?s1\<lparr>mobileRetryAttempts := mobileRetryAttempts ?s1 + 1\<rparr>"
  have a1: "\<forall>r \<in> set (accountResults ?s1). gainConsistent r" using Cons.prems by simp
  have a2: "\<forall>r \<in> set (accountResults ?s2). gainConsistent r" using Cons.prems by simp
  note f1 = mobileFinish_gainConsistent [OF a1] and f2 = mobileFinish_gainConsistent [OF a2]
    and m1 = Cons.IH [OF a1] and m2 = Cons.IH [OF a2]
  show ?case
    using Cons.prems f1 f2 m1 m2
    by (simp add: Let_def split: option.splits)
qed


lemma desktopStep_gainConsistent:
  assumes "\<forall>r \<in> set (accountResults self). gainConsistent r"
  shows "\<forall>r \<in> set (accountResults (snd (desktopStep cfg task self))). gainConsistent r"
proof -
  have "\<forall>r \<in> set (updateFound em
            (\<lambda>r. r\<lparr>pointsBefore := pointsInitial self, pointsAfter := after,
                   pointsGained := max 0 (after - pointsInitial self),
                   tasksCompleted := n\<rparr>)
            (accountResults self)). gainConsistent r" for n em after
    by (rule updateFound_preserves [OF _ assms]) (simp add: gainConsistent_def)
  then show ?thesis
    using assms by (simp add: desktopStep_def Let_def split: desktop_stage.splits option.splits)
qed

lemma stepDetached_gainConsistent:
  assumes "\<forall>r \<in> set (accountResults self). gainConsistent r"
  shows "\<forall>r \<in> set (accountResults (stepDetached cfg i self)). gainConsistent r"
proof (cases "desktopStep cfg (detached self ! i) self")
  case (Pair r b)
  have "\<forall>r \<in> set (accountResults b). gainConsistent r"
    using desktopStep_gainConsistent [OF assms, of cfg "detached self ! i"] Pair by simp
  then show ?thesis using Pair assms by (cases r) (simp_all add: stepDetached_def Let_def)
qed

lemma parallelAwait_gainConsistent:
  "\<forall>r \<in> set (accountResults self). gainConsistent r \<Longrightarrow>
   \<forall>r \<in> set (accountResults (snd (parallelAwait cfg sched desk mobileEnd mobileDone self))).
     gainConsistent r"
proof (induction sched arbitrary: desk mobileEnd mobileDone self)
  case Nil
  then show ?case by simp
next
  case (Cons ev later)
  show ?case
  proof (cases ev)
    case DesktopStep
    show ?thesis
    proof (cases desk)
      case None
      with DesktopStep Cons.prems show ?thesis by (simp add: Cons.IH)
    next
      case (Some task)
      obtain r b where s: "desktopStep cfg task self = (r, b)" by fastforce
      have b: "\<forall>r \<in> set (accountResults b). gainConsistent r"
        using desktopStep_gainConsistent [OF Cons.prems, of cfg task] s by simp
      show ?thesis
        using DesktopStep Some s b Cons.IH [OF b]
        by (cases r) (simp_all split: completion.splits)
    qed
  next
    case (DetachedStep i)
    then show ?thesis
      using Cons.IH [OF stepDetached_gainConsistent [OF Cons.prems]] by simp
  next
    case MobileSettles
    then show ?thesis using Cons.prems Cons.IH [OF Cons.prems] by (cases mobileEnd) simp_all
  qed
qed

lemma accountWork_gainConsistent:
  assumes "\<forall>r \<in> set (accountResults self). gainConsistent r"
  shows "\<forall>r \<in> set (accountResults (snd (accountWork cfg w a p self))). gainConsistent r"
proof (cases "parallel cfg")
  case True
  then show ?thesis
    using parallelAwait_gainConsistent [OF assms] by (simp add: accountWork_def Let_def)
next
  case False
  show ?thesis
  proof (cases "Desktop cfg (desktop w) a p (self\<lparr>isMobile := False\<rparr>)")
    case (Pair c b)
    have "\<forall>r \<in> set (accountResults (self\<lparr>isMobile := False\<rparr>)). gainConsistent r"
      using assms by simp
    from Desktop_gainConsistent [OF this, of cfg "desktop w" a p] Pair
    have b: "\<forall>r \<in> set (accountResults (b\<lparr>isMobile := True\<rparr>)). gainConsistent r" by simp
    show ?thesis
      using Pair False b Mobile_gainConsistent [OF b, of cfg "mobile w" a p]
      by (cases c) (simp_all add: accountWork_def)
  qed
qed

lemma createAccountResult_gainConsistent:
  "gainConsistent (createAccountResult em b a t d ok err)"
  by (simp add: gainConsistent_def createAccountResult_def)

lemma runAllAccounts_gainConsistent:
  "\<forall>r \<in> set (accountResults self). gainConsistent r \<Longrightarrow>
   \<forall>r \<in> set (accountResults (snd (runAllAccounts cfg world accounts p self))). gainConsistent r"
proof (induction accounts arbitrary: self)
  case Nil
  then show ?case by simp
next
  case (Cons a rest)
  let ?self0 = "self\<lparr>events := events self @ [WorkStarted (accountEmail a) p]\<rparr>"
  obtain c b where w: "accountWork cfg (world a p) a p ?self0 = (c, b)" by fastforce
  have "\<forall>r \<in> set (accountResults ?self0). gainConsistent r" using Cons.prems by simp
  from accountWork_gainConsistent [OF this, of cfg "world a p" a p] w
  have b: "\<forall>r \<in> set (accountResults b). gainConsistent r" by simp
  have b2: "\<forall>r \<in> set (accountResults (b\<lparr>accountResults := accountResults b @
      [createAccountResult (accountEmail a) (orZero (pointsInitial b)) (orZero (pointsInitial b)) 0
         (elapsedSeconds (world a p)) ok msg]\<rparr>)). gainConsistent r" for ok msg
    using b by (simp add: createAccountResult_gainConsistent)
  show ?case
    using w b Cons.IH [OF b] Cons.IH [OF b2]
    by (cases c) (simp_all add: Let_def)
qed

end
